theory Spec2Isabelle
  imports Complex_Main "HOL-Library.Multiset" "HOL-Library.AList" "HOL-Library.Sublist"
begin

section \<open>Numbers\<close>

text \<open>
  Python floats are IEEE-754 binary64 values. A finite one is modelled by the rational it
  denotes; every arithmetic operation computes the exact rational result and rounds it to
  the nearest binary64 value, ties to even. Infinities and NaN are outside the model.
\<close>

type_synonym pyfloat = rat

definition rne :: "rat \<Rightarrow> int" where
  "rne x = (let f = \<lfloor>x\<rfloor>; d = x - of_int f in
            if d < 1/2 then f else if 1/2 < d then f + 1 else if even f then f else f + 1)"

text \<open>
  \<open>normalise\<close> scales a positive value \<open>m * 2^e\<close> until the significand \<open>m\<close> lies in
  \<open>[2^52, 2^53)\<close>, or the exponent reaches the subnormal range at \<open>-1074\<close>.
\<close>

fun normalise :: "nat \<Rightarrow> rat \<Rightarrow> int \<Rightarrow> rat \<times> int" where
  "normalise 0 m e = (m, e)"
| "normalise (Suc n) m e =
     (if 2 ^ 53 \<le> m then normalise n (m / 2) (e + 1)
      else if m < 2 ^ 52 \<and> - 1074 < e then normalise n (m * 2) (e - 1)
      else (m, e))"

definition double :: "rat \<Rightarrow> pyfloat" where
  "double x = (if x = 0 then 0
               else case normalise 2200 \<bar>x\<bar> 0 of
                      (m, e) \<Rightarrow> sgn x * of_int (rne m) * (2 powi e))"

definition fadd :: "pyfloat \<Rightarrow> pyfloat \<Rightarrow> pyfloat" where
  "fadd x y = double (x + y)"

definition fmul :: "pyfloat \<Rightarrow> pyfloat \<Rightarrow> pyfloat" where
  "fmul x y = double (x * y)"

definition fdiv :: "pyfloat \<Rightarrow> pyfloat \<Rightarrow> pyfloat" where
  "fdiv x y = double (x / y)"

section \<open>config.py: skills, categories, priorities\<close>

text \<open>The member \<open>ML\<close> of the source's \<open>SkillCategory\<close> is written \<open>MACHINE_LEARNING\<close>.\<close>

datatype SkillCategory =
  LANGUAGES | FRAMEWORKS | MACHINE_LEARNING | DEVOPS | CLOUD | DATABASES | FUNDAMENTALS

datatype Priority = CRITICAL | HIGH | MEDIUM | LOW

record Skill =
  name :: string
  category :: SkillCategory
  weight :: pyfloat
  variants :: "string list"
  strict_match :: bool

fun category_value :: "SkillCategory \<Rightarrow> string" where
  "category_value LANGUAGES = ''languages''"
| "category_value FRAMEWORKS = ''frameworks''"
| "category_value MACHINE_LEARNING = ''ml''"
| "category_value DEVOPS = ''devops''"
| "category_value CLOUD = ''cloud''"
| "category_value DATABASES = ''databases''"
| "category_value FUNDAMENTALS = ''fundamentals''"

fun CATEGORY_WEIGHTS :: "SkillCategory \<Rightarrow> pyfloat" where
  "CATEGORY_WEIGHTS FUNDAMENTALS = double (13/10)"
| "CATEGORY_WEIGHTS LANGUAGES = double (12/10)"
| "CATEGORY_WEIGHTS FRAMEWORKS = 1"
| "CATEGORY_WEIGHTS MACHINE_LEARNING = 1"
| "CATEGORY_WEIGHTS DEVOPS = double (9/10)"
| "CATEGORY_WEIGHTS CLOUD = 1"
| "CATEGORY_WEIGHTS DATABASES = double (9/10)"

text \<open>
  Strings are modelled on ASCII text: \<open>str.lower\<close> maps \<open>A\<close> to \<open>Z\<close> onto \<open>a\<close> to \<open>z\<close>, and
  the whitespace that \<open>str.strip\<close> and the regular expression class \<open>\s\<close> recognise is the
  ASCII whitespace of Python: tab, line feed, vertical tab, form feed, carriage return, the
  four separators \<open>0x1C\<close> to \<open>0x1F\<close>, and the space.
\<close>

definition lower_char :: "char \<Rightarrow> char" where
  "lower_char c =
     (case map_of (zip ''ABCDEFGHIJKLMNOPQRSTUVWXYZ'' ''abcdefghijklmnopqrstuvwxyz'') c of
        Some l \<Rightarrow> l
      | None \<Rightarrow> c)"

definition lower :: "string \<Rightarrow> string" where
  "lower s = map lower_char s"

definition is_space :: "char \<Rightarrow> bool" where
  "is_space c \<longleftrightarrow>
     c \<in> set [CHR 0x09, CHR 0x0A, CHR 0x0B, CHR 0x0C, CHR 0x0D,
              CHR 0x1C, CHR 0x1D, CHR 0x1E, CHR 0x1F, CHR '' '']"

definition strip :: "string \<Rightarrow> string" where
  "strip s = rev (dropWhile is_space (rev (dropWhile is_space s)))"

text \<open>The constructor of \<open>Skill\<close> with its \<open>__post_init__\<close>, which normalises the variants.\<close>

definition make_Skill ::
  "string \<Rightarrow> SkillCategory \<Rightarrow> pyfloat \<Rightarrow> string list \<Rightarrow> bool \<Rightarrow> Skill" where
  "make_Skill n c w vs sm =
     \<lparr>name = n, category = c, weight = w, variants = map (\<lambda>v. strip (lower v)) vs,
      strict_match = sm\<rparr>"

text \<open>
  The two dictionaries of \<open>SkillTaxonomy\<close>, in insertion order. Iterating over the taxonomy
  yields the values of \<open>skills\<close> in that order.
\<close>

record SkillTaxonomy =
  skills :: "(string \<times> Skill) list"
  variant_index :: "(string \<times> Skill) list"

definition empty_taxonomy :: SkillTaxonomy where
  "empty_taxonomy = \<lparr>skills = [], variant_index = []\<rparr>"

definition register :: "SkillTaxonomy \<Rightarrow> Skill \<Rightarrow> SkillTaxonomy" where
  "register T s =
     \<lparr>skills = AList.update (lower (name s)) s (skills T),
      variant_index = foldl (\<lambda>vi v. AList.update v s vi) (variant_index T) (variants s)\<rparr>"

text \<open>The entries of \<open>skills_data\<close> that the properties below mention by name.\<close>

definition Python :: Skill where
  "Python = make_Skill ''Python'' LANGUAGES (double (12/10)) [''python'', ''python3'', ''py''] False"

definition Java :: Skill where
  "Java = make_Skill ''Java'' LANGUAGES (double (12/10)) [''java'', ''java8'', ''java11''] False"

definition JavaScript :: Skill where
  "JavaScript = make_Skill ''JavaScript'' LANGUAGES (double (12/10)) [''javascript'', ''js'', ''es6''] False"

definition Go :: Skill where
  "Go = make_Skill ''Go'' LANGUAGES 1 [''golang''] True"

definition Docker :: Skill where
  "Docker = make_Skill ''Docker'' DEVOPS 1 [''docker''] False"

definition Git :: Skill where
  "Git = make_Skill ''Git'' DEVOPS (double (8/10)) [''git'', ''github''] False"

definition Algorithms :: Skill where
  "Algorithms = make_Skill ''Algorithms'' FUNDAMENTALS (double (13/10)) [''algorithms'', ''algo'', ''dsa''] False"

definition Data_Structures :: Skill where
  "Data_Structures = make_Skill ''Data Structures'' FUNDAMENTALS (double (13/10)) [''data structures'', ''dsa''] False"

definition skills_data :: "Skill list" where
  "skills_data =
    [Python,
     Java,
     JavaScript,
     make_Skill ''TypeScript'' LANGUAGES (double (11/10)) [''typescript'', ''ts''] False,
     make_Skill ''C++'' LANGUAGES (double (11/10)) [''c++'', ''cpp'', ''cplusplus''] False,
     make_Skill ''C'' LANGUAGES 1 [''c programming''] True,
     make_Skill ''C#'' LANGUAGES (double (11/10)) [''c#'', ''csharp''] False,
     Go,
     make_Skill ''React'' FRAMEWORKS 1 [''react'', ''reactjs''] False,
     make_Skill ''Angular'' FRAMEWORKS (double (9/10)) [''angular''] False,
     make_Skill ''Vue.js'' FRAMEWORKS (double (9/10)) [''vue'', ''vuejs''] False,
     make_Skill ''Node.js'' FRAMEWORKS 1 [''nodejs'', ''node''] False,
     make_Skill ''Django'' FRAMEWORKS 1 [''django''] False,
     make_Skill ''Flask'' FRAMEWORKS (double (9/10)) [''flask''] False,
     make_Skill ''Spring Boot'' FRAMEWORKS 1 [''spring boot'', ''spring''] False,
     make_Skill ''.NET'' FRAMEWORKS 1 [''dotnet'', ''.net''] False,
     make_Skill ''TensorFlow'' MACHINE_LEARNING 1 [''tensorflow'', ''tf''] False,
     make_Skill ''PyTorch'' MACHINE_LEARNING 1 [''pytorch'', ''torch''] False,
     make_Skill ''scikit-learn'' MACHINE_LEARNING (double (9/10)) [''sklearn''] False,
     Docker,
     make_Skill ''Kubernetes'' DEVOPS (double (9/10)) [''kubernetes'', ''k8s''] False,
     Git,
     make_Skill ''AWS'' CLOUD 1 [''aws'', ''amazon web services''] False,
     make_Skill ''Azure'' CLOUD (double (9/10)) [''azure''] False,
     make_Skill ''GCP'' CLOUD (double (9/10)) [''gcp'', ''google cloud''] False,
     make_Skill ''SQL'' DATABASES (double (11/10)) [''sql''] False,
     make_Skill ''MySQL'' DATABASES (double (9/10)) [''mysql''] False,
     make_Skill ''PostgreSQL'' DATABASES (double (9/10)) [''postgresql'', ''postgres''] False,
     make_Skill ''MongoDB'' DATABASES (double (9/10)) [''mongodb'', ''mongo''] False,
     Algorithms,
     Data_Structures,
     make_Skill ''OOP'' FUNDAMENTALS (double (11/10)) [''oop'', ''object oriented''] False,
     make_Skill ''System Design'' FUNDAMENTALS (double (12/10)) [''system design'', ''architecture''] False]"

definition load_skills :: "SkillTaxonomy \<Rightarrow> SkillTaxonomy" where
  "load_skills T = foldl register T skills_data"

text \<open>\<open>SkillTaxonomy()\<close>: the constructor starts from two empty dictionaries and loads the skills.\<close>

definition new_taxonomy :: SkillTaxonomy where
  "new_taxonomy = load_skills empty_taxonomy"

definition get_all_skills :: "SkillTaxonomy \<Rightarrow> Skill list" where
  "get_all_skills T = map snd (skills T)"

definition get_by_variant :: "SkillTaxonomy \<Rightarrow> string \<Rightarrow> Skill option" where
  "get_by_variant T variant = map_of (variant_index T) (lower variant)"

section \<open>skills.py: matches\<close>

record SkillMatch =
  skill :: Skill
  match_type :: string
  confidence :: pyfloat
  context_text :: string

datatype error = NameError | ValueError

text \<open>
  \<open>str.find\<close>: the lowest index at which \<open>sub\<close> occurs, \<open>None\<close> for Python's \<open>-1\<close>; and
  the test \<open>sub in text\<close>.
\<close>

fun find_sub :: "string \<Rightarrow> string \<Rightarrow> nat option" where
  "find_sub sub [] = (if sub = [] then Some 0 else None)"
| "find_sub sub (c # cs) =
     (if prefix sub (c # cs) then Some 0 else map_option Suc (find_sub sub cs))"

definition contains :: "string \<Rightarrow> string \<Rightarrow> bool" where
  "contains sub text \<longleftrightarrow> find_sub sub text \<noteq> None"

text \<open>
  The regular expression classes on ASCII text: \<open>\w\<close> is a letter, a digit or the
  underscore; \<open>\b\<close> holds between two positions of which exactly one is a word character,
  the text's ends counting as none.
\<close>

definition is_digit :: "char \<Rightarrow> bool" where
  "is_digit c \<longleftrightarrow> c \<in> set ''0123456789''"

definition is_word_char :: "char \<Rightarrow> bool" where
  "is_word_char c \<longleftrightarrow>
     c \<in> set ''abcdefghijklmnopqrstuvwxyzABCDEFGHIJKLMNOPQRSTUVWXYZ0123456789_''"

fun is_word :: "char option \<Rightarrow> bool" where
  "is_word None = False"
| "is_word (Some c) = is_word_char c"

definition boundary :: "char option \<Rightarrow> char option \<Rightarrow> bool" where
  "boundary prev nxt \<longleftrightarrow> is_word prev \<noteq> is_word nxt"

fun first_char :: "string \<Rightarrow> char option" where
  "first_char [] = None"
| "first_char (c # cs) = Some c"

text \<open>
  \<open>re.search(rf"\b{re.escape(lit)}\b", text)\<close>: whether the literal occurs somewhere with a
  word boundary on both sides. \<open>prev\<close> is the character in front of the remaining text.
\<close>

definition bounded_at :: "char option \<Rightarrow> string \<Rightarrow> string \<Rightarrow> bool" where
  "bounded_at prev lit rest \<longleftrightarrow>
     prefix lit rest \<and> boundary prev (first_char rest) \<and>
     boundary (if lit = [] then prev else Some (last lit)) (first_char (drop (length lit) rest))"

fun bounded_search :: "char option \<Rightarrow> string \<Rightarrow> string \<Rightarrow> bool" where
  "bounded_search prev lit [] = bounded_at prev lit []"
| "bounded_search prev lit (c # cs) =
     (bounded_at prev lit (c # cs) \<or> bounded_search (Some c) lit cs)"

text \<open>\<open>ExactMatcher._extract_context\<close>, with the default window of 50 characters.\<close>

definition extract_context :: "string \<Rightarrow> string \<Rightarrow> string" where
  "extract_context text term' =
     (case find_sub (lower term') (lower text) of
        None \<Rightarrow> []
      | Some idx \<Rightarrow>
          (let start = idx - 50;
               end' = min (length text) (idx + length term' + 50);
               ctx = strip (take (end' - start) (drop start text));
               ctx = (if 0 < start then ''...'' @ ctx else ctx);
               ctx = (if end' < length text then ctx @ ''...'' else ctx)
           in ctx))"

text \<open>
  The matchers share the set \<open>seen\<close> and add to it; each loop returns its matches together
  with the set as it has left it.
\<close>

definition exact_found :: "Skill \<Rightarrow> string \<Rightarrow> bool" where
  "exact_found s text_lower =
     (if strict_match s then bounded_search None (lower (name s)) text_lower
      else contains (lower (name s)) text_lower)"

fun exact_loop :: "string \<Rightarrow> Skill list \<Rightarrow> string set \<Rightarrow> SkillMatch list \<times> string set" where
  "exact_loop text [] seen = ([], seen)"
| "exact_loop text (s # ss) seen =
     (if lower (name s) \<in> seen then exact_loop text ss seen
      else if exact_found s (lower text)
      then (case exact_loop text ss (insert (lower (name s)) seen) of
              (ms, seen') \<Rightarrow>
                (\<lparr>skill = s, match_type = ''exact'', confidence = 1,
                  context_text = extract_context text (name s)\<rparr> # ms, seen'))
      else exact_loop text ss seen)"

definition ExactMatcher_find_matches ::
  "string \<Rightarrow> SkillTaxonomy \<Rightarrow> string set \<Rightarrow> SkillMatch list \<times> string set" where
  "ExactMatcher_find_matches text T seen = exact_loop text (get_all_skills T) seen"

definition variant_found :: "Skill \<Rightarrow> string \<Rightarrow> string \<Rightarrow> bool" where
  "variant_found s text_lower variant =
     (if strict_match s then bounded_search None variant text_lower
      else contains variant text_lower)"

fun variant_loop :: "string \<Rightarrow> Skill list \<Rightarrow> string set \<Rightarrow> SkillMatch list \<times> string set" where
  "variant_loop text [] seen = ([], seen)"
| "variant_loop text (s # ss) seen =
     (if lower (name s) \<in> seen then variant_loop text ss seen
      else case List.find (variant_found s (lower text)) (variants s) of
             None \<Rightarrow> variant_loop text ss seen
           | Some variant \<Rightarrow>
               (case variant_loop text ss (insert (lower (name s)) seen) of
                  (ms, seen') \<Rightarrow>
                    (\<lparr>skill = s, match_type = ''variant'', confidence = double (98/100),
                      context_text = extract_context text variant\<rparr> # ms, seen')))"

definition VariantMatcher_find_matches ::
  "string \<Rightarrow> SkillTaxonomy \<Rightarrow> string set \<Rightarrow> SkillMatch list \<times> string set" where
  "VariantMatcher_find_matches text T seen = variant_loop text (get_all_skills T) seen"

text \<open>
  \<open>re.findall(r"\b[\w\+\#\.]{4,}\b", text)\<close>. At a position with a word boundary the
  quantifier takes the longest run of class characters and gives characters back until a
  word boundary follows, keeping at least four; the scan goes on behind a token, and one
  character further where there is none.
\<close>

definition is_token_char :: "char \<Rightarrow> bool" where
  "is_token_char c \<longleftrightarrow> is_word_char c \<or> c \<in> set ''+#.''"

definition token_at :: "char option \<Rightarrow> string \<Rightarrow> nat option" where
  "token_at prev rest =
     (if boundary prev (first_char rest)
      then List.find (\<lambda>n. boundary (Some (rest ! (n - 1))) (first_char (drop n rest)))
             (rev [4 ..< Suc (length (takeWhile is_token_char rest))])
      else None)"

function find_tokens :: "char option \<Rightarrow> string \<Rightarrow> string list" where
  "find_tokens prev [] = []"
| "find_tokens prev (c # cs) =
     (case token_at prev (c # cs) of
        None \<Rightarrow> find_tokens (Some c) cs
      | Some n \<Rightarrow>
          (if n = 0 then find_tokens (Some c) cs
           else take n (c # cs) # find_tokens (Some ((c # cs) ! (n - 1))) (drop n (c # cs))))"
  by pat_completeness auto
termination
  by (relation "measure (\<lambda>(b, text). length text)") auto

text \<open>
  The fuzzy matcher calls \<open>fuzz.ratio(token, candidate)\<close>. What evaluating that call yields,
  a similarity or an error, is the parameter \<open>ratio\<close> of the model. The loops stop at the
  first error, which nothing in \<open>skills.py\<close> catches.
\<close>

type_synonym fuzz_ratio = "string \<Rightarrow> string \<Rightarrow> error + pyfloat"

fun token_loop :: "fuzz_ratio \<Rightarrow> string \<Rightarrow> string list \<Rightarrow> error + (string \<times> pyfloat) option" where
  "token_loop ratio candidate [] = Inr None"
| "token_loop ratio candidate (token # tokens) =
     (case ratio token candidate of
        Inl e \<Rightarrow> Inl e
      | Inr similarity \<Rightarrow>
          if 88 \<le> similarity then Inr (Some (token, similarity))
          else token_loop ratio candidate tokens)"

fun candidate_loop ::
  "fuzz_ratio \<Rightarrow> string list \<Rightarrow> string list \<Rightarrow> error + (string \<times> pyfloat) option" where
  "candidate_loop ratio [] tokens = Inr None"
| "candidate_loop ratio (candidate # candidates) tokens =
     (case token_loop ratio candidate tokens of
        Inl e \<Rightarrow> Inl e
      | Inr (Some hit) \<Rightarrow> Inr (Some hit)
      | Inr None \<Rightarrow> candidate_loop ratio candidates tokens)"

fun fuzzy_loop ::
  "fuzz_ratio \<Rightarrow> string \<Rightarrow> string list \<Rightarrow> Skill list \<Rightarrow> string set
     \<Rightarrow> error + SkillMatch list \<times> string set" where
  "fuzzy_loop ratio text tokens [] seen = Inr ([], seen)"
| "fuzzy_loop ratio text tokens (s # ss) seen =
     (if lower (name s) \<in> seen \<or> strict_match s then fuzzy_loop ratio text tokens ss seen
      else case candidate_loop ratio (lower (name s) # variants s) tokens of
             Inl e \<Rightarrow> Inl e
           | Inr None \<Rightarrow> fuzzy_loop ratio text tokens ss seen
           | Inr (Some (token, similarity)) \<Rightarrow>
               (case fuzzy_loop ratio text tokens ss (insert (lower (name s)) seen) of
                  Inl e \<Rightarrow> Inl e
                | Inr (ms, seen') \<Rightarrow>
                    Inr (\<lparr>skill = s, match_type = ''fuzzy'', confidence = fdiv similarity 100,
                          context_text = extract_context text token\<rparr> # ms, seen')))"

definition FuzzyMatcher_find_matches ::
  "fuzz_ratio \<Rightarrow> string \<Rightarrow> SkillTaxonomy \<Rightarrow> string set \<Rightarrow> error + SkillMatch list \<times> string set" where
  "FuzzyMatcher_find_matches ratio text T seen =
     fuzzy_loop ratio text (find_tokens None (lower text)) (get_all_skills T) seen"

text \<open>
  \<open>SkillExtractor.extract_skills\<close>, for an extractor over the taxonomy \<open>T\<close>. The result is
  sorted by confidence, descending, and the sort is stable.
\<close>

definition extract_skills_with ::
  "fuzz_ratio \<Rightarrow> SkillTaxonomy \<Rightarrow> string \<Rightarrow> error + SkillMatch list" where
  "extract_skills_with ratio T text =
     (if text = [] then Inr []
      else case ExactMatcher_find_matches text T {} of
             (m1, seen1) \<Rightarrow>
               (case VariantMatcher_find_matches text T seen1 of
                  (m2, seen2) \<Rightarrow>
                    (case FuzzyMatcher_find_matches ratio text T seen2 of
                       Inl e \<Rightarrow> Inl e
                     | Inr (m3, seen3) \<Rightarrow>
                         Inr (sort_key (\<lambda>m. - confidence m) (m1 @ m2 @ m3)))))"

text \<open>
  \<open>skills.py\<close> imports \<open>re\<close>, \<open>abc\<close>, \<open>typing\<close>, \<open>dataclasses\<close>, \<open>difflib.SequenceMatcher\<close> and
  its own \<open>config\<close>. It neither imports nor defines the name \<open>fuzz\<close>, so evaluating
  \<open>fuzz.ratio(token, candidate)\<close> raises \<open>NameError\<close>.
\<close>

definition module_fuzz_ratio :: fuzz_ratio where
  "module_fuzz_ratio token candidate = Inl NameError"

definition extract_skills :: "SkillTaxonomy \<Rightarrow> string \<Rightarrow> error + SkillMatch list" where
  "extract_skills T text = extract_skills_with module_fuzz_ratio T text"

text \<open>
  When a strategy matches a skill on a text: the exact strategy when it finds the name, the
  variant strategy when it finds one of the variants.
\<close>

definition exact_hit :: "string \<Rightarrow> Skill \<Rightarrow> bool" where
  "exact_hit text s \<longleftrightarrow> exact_found s (lower text)"

definition variant_hit :: "string \<Rightarrow> Skill \<Rightarrow> bool" where
  "variant_hit text s \<longleftrightarrow> (\<exists>v \<in> set (variants s). variant_found s (lower text) v)"

section \<open>preprocessing.py\<close>

text \<open>
  \<open>re.sub\<close>, \<open>re.findall\<close> and \<open>re.search\<close> scan the text from left to right. A pattern is
  given by its matcher: a function that takes the character in front of a position and the
  text from that position on, and returns the length of the match that starts there, if
  there is one. After a match the scan goes on behind it, otherwise one character further.
  None of the patterns below matches the empty string; a matcher that did would be skipped.
\<close>

type_synonym matcher = "char option \<Rightarrow> string \<Rightarrow> nat option"

function re_sub :: "matcher \<Rightarrow> string \<Rightarrow> char option \<Rightarrow> string \<Rightarrow> string" where
  "re_sub m repl prev [] = []"
| "re_sub m repl prev (c # cs) =
     (case m prev (c # cs) of
        None \<Rightarrow> c # re_sub m repl (Some c) cs
      | Some n \<Rightarrow>
          (if n = 0 then c # re_sub m repl (Some c) cs
           else repl @ re_sub m repl (Some ((c # cs) ! (n - 1))) (drop n (c # cs))))"
  by pat_completeness auto
termination
  by (relation "measure (\<lambda>(m, repl, prev, s). length s)") auto

function re_findall :: "matcher \<Rightarrow> char option \<Rightarrow> string \<Rightarrow> string list" where
  "re_findall m prev [] = []"
| "re_findall m prev (c # cs) =
     (case m prev (c # cs) of
        None \<Rightarrow> re_findall m (Some c) cs
      | Some n \<Rightarrow>
          (if n = 0 then re_findall m (Some c) cs
           else take n (c # cs) # re_findall m (Some ((c # cs) ! (n - 1))) (drop n (c # cs))))"
  by pat_completeness auto
termination
  by (relation "measure (\<lambda>(m, prev, s). length s)") auto

fun re_search :: "matcher \<Rightarrow> char option \<Rightarrow> string \<Rightarrow> bool" where
  "re_search m prev [] = False"
| "re_search m prev (c # cs) = (m prev (c # cs) \<noteq> None \<or> re_search m (Some c) cs)"

text \<open>
  \<open>unicodedata.normalize("NFKD", text)\<close> leaves ASCII text as it is, and encoding with
  \<open>ascii\<close> and \<open>ignore\<close> drops every other character.
\<close>

definition is_ascii :: "char \<Rightarrow> bool" where
  "is_ascii c \<longleftrightarrow> \<not> digit7 c"

definition non_space_run :: "string \<Rightarrow> nat" where
  "non_space_run s = length (takeWhile (\<lambda>c. \<not> is_space c) s)"

text \<open>\<open>http\S+|www\.\S+\<close>\<close>

definition url_match :: matcher where
  "url_match prev rest =
     (if prefix ''http'' rest \<and> 0 < non_space_run (drop 4 rest)
      then Some (4 + non_space_run (drop 4 rest))
      else if prefix ''www.'' rest \<and> 0 < non_space_run (drop 4 rest)
      then Some (4 + non_space_run (drop 4 rest))
      else None)"

text \<open>
  \<open>\S+@\S+\<close>: the first \<open>\S+\<close> needs a character in front of an \<open>@\<close> and the second one a
  character behind it, all within one run without whitespace; the match is that whole run.
\<close>

definition email_match :: matcher where
  "email_match prev rest =
     (let run = takeWhile (\<lambda>c. \<not> is_space c) rest
      in if CHR ''@'' \<in> set (butlast (tl run)) then Some (length run) else None)"

text \<open>
  \<open>\(?\d{3}\)?[-.\s]?\d{3}[-.\s]?\d{4}\<close>. No optional part can give back its character:
  what follows it would have to match that character, and a parenthesis or a separator is
  no digit.
\<close>

definition skip_opt :: "(char \<Rightarrow> bool) \<Rightarrow> string \<Rightarrow> string" where
  "skip_opt p s = (case s of [] \<Rightarrow> [] | c # cs \<Rightarrow> if p c then cs else c # cs)"

definition digits :: "nat \<Rightarrow> string \<Rightarrow> bool" where
  "digits n s \<longleftrightarrow> n \<le> length s \<and> list_all is_digit (take n s)"

definition is_sep :: "char \<Rightarrow> bool" where
  "is_sep c \<longleftrightarrow> c = CHR ''-'' \<or> c = CHR ''.'' \<or> is_space c"

definition phone_match :: matcher where
  "phone_match prev rest =
     (let s1 = skip_opt (\<lambda>c. c = CHR ''('') rest in
      if \<not> digits 3 s1 then None
      else let s2 = skip_opt is_sep (skip_opt (\<lambda>c. c = CHR '')'') (drop 3 s1)) in
      if \<not> digits 3 s2 then None
      else let s3 = skip_opt is_sep (drop 3 s2) in
      if \<not> digits 4 s3 then None
      else Some (length rest - length (drop 4 s3)))"

text \<open>\<open>[^\w\s\+\#\.\-]\<close> is replaced by a space.\<close>

definition keep_char :: "char \<Rightarrow> char" where
  "keep_char c = (if is_word_char c \<or> is_space c \<or> c \<in> set ''+#.-'' then c else CHR '' '')"

text \<open>\<open>re.sub(r"\s+", " ", text)\<close>\<close>

function collapse :: "string \<Rightarrow> string" where
  "collapse [] = []"
| "collapse (c # cs) =
     (if is_space c then CHR '' '' # collapse (dropWhile is_space cs) else c # collapse cs)"
  by pat_completeness auto
termination
  by (relation "measure length") (auto simp: length_dropWhile_le le_imp_less_Suc)

text \<open>
  Every entry of \<open>TECHNICAL_PATTERNS\<close> is a literal between two \<open>\b\<close>; the list holds the
  literals. With \<open>re.IGNORECASE\<close> a literal matches the text that equals it up to case.
\<close>

definition TECHNICAL_PATTERNS :: "string list" where
  "TECHNICAL_PATTERNS = [''c++'', ''c#'', ''.net'', ''ios'', ''javascript'', ''typescript'', ''node.js'']"

definition literal_match :: "string \<Rightarrow> matcher" where
  "literal_match lit prev rest =
     (let n = length lit
      in if n \<le> length rest \<and> lower (take n rest) = lower lit \<and>
            boundary prev (first_char rest) \<and>
            boundary (if n = 0 then prev else Some (rest ! (n - 1))) (first_char (drop n rest))
         then Some n else None)"

definition reinforce :: "string \<Rightarrow> string \<Rightarrow> string" where
  "reinforce text lit =
     foldl (\<lambda>t found. re_sub (literal_match (lower found)) (lower found) None t) text
       (re_findall (literal_match lit) None text)"

definition process :: "string \<Rightarrow> string" where
  "process text =
     (if text = [] then []
      else let t = filter is_ascii text;
               t = re_sub url_match '' '' None t;
               t = re_sub email_match '' '' None t;
               t = re_sub phone_match '' '' None t;
               t = lower t;
               t = map keep_char t;
               t = strip (collapse t)
           in foldl reinforce t TECHNICAL_PATTERNS)"

text \<open>The three substitutions that remove URLs, e-mail addresses and phone numbers.\<close>

definition strip_noise :: "string \<Rightarrow> string" where
  "strip_noise s =
     re_sub phone_match '' '' None (re_sub email_match '' '' None (re_sub url_match '' '' None s))"

text \<open>
  The shape of a normalised text: every character is a space, or a lowercase word
  character or one of \<open>+ # . -\<close>; and no two whitespace characters are adjacent.
\<close>

definition normal_char :: "char \<Rightarrow> bool" where
  "normal_char c \<longleftrightarrow> c = CHR '' '' \<or> (\<not> is_space c \<and> keep_char c = c \<and> lower_char c = c)"

fun spaced :: "string \<Rightarrow> bool" where
  "spaced [] = True"
| "spaced [c] = True"
| "spaced (c # d # cs) = (\<not> (is_space c \<and> is_space d) \<and> spaced (d # cs))"

section \<open>gap\_analysis.py\<close>

record SkillGap =
  skill_match :: SkillMatch
  priority :: Priority
  impact_score :: pyfloat

definition skill_name :: "SkillGap \<Rightarrow> string" where
  "skill_name g = name (skill (skill_match g))"

definition gap_category :: "SkillGap \<Rightarrow> SkillCategory" where
  "gap_category g = category (skill (skill_match g))"

record CategoryAnalysis =
  ca_category :: SkillCategory
  coverage :: pyfloat
  matched_count :: nat
  weak_count :: nat
  missing_count :: nat

record Recommendation =
  rec_priority :: string
  title :: string
  description :: string
  action :: string

record GapAnalysisReport =
  overall_score :: pyfloat
  confidence_score :: pyfloat
  matched_skills :: "SkillMatch list"
  missing_skills :: "SkillGap list"
  weak_matches :: "SkillMatch list"
  category_analysis :: "(SkillCategory \<times> CategoryAnalysis) list"
  recommendations :: "Recommendation list"

text \<open>
  A Python \<open>dict\<close> keeps its keys in insertion order, and assigning to a key that is present
  replaces the value in place: an association list under \<open>AList.update\<close>.
\<close>

definition match_key :: "SkillMatch \<Rightarrow> string" where
  "match_key m = lower (name (skill m))"

definition match_map :: "SkillMatch list \<Rightarrow> (string \<times> SkillMatch) list" where
  "match_map ms = foldl (\<lambda>d m. AList.update (match_key m) m d) [] ms"

text \<open>
  A Python \<open>set\<close> is iterated in an order the language does not fix. The analysis iterates
  over two sets of keys and one set of categories; the order of each iteration is a
  parameter, a function from the elements (listed without repetition) to the sequence in
  which the loop visits them.
\<close>

record set_iteration =
  keys_iter :: "string list \<Rightarrow> string list"
  categories_iter :: "SkillCategory list \<Rightarrow> SkillCategory list"

definition valid_iteration :: "set_iteration \<Rightarrow> bool" where
  "valid_iteration it \<longleftrightarrow>
     (\<forall>ks. mset (keys_iter it ks) = mset ks) \<and> (\<forall>cs. mset (categories_iter it cs) = mset cs)"

fun classify_matched ::
  "string list \<Rightarrow> (string \<times> SkillMatch) list \<Rightarrow> SkillMatch list \<times> SkillMatch list" where
  "classify_matched [] resume_map = ([], [])"
| "classify_matched (key # keys) resume_map =
     (case map_of resume_map key of
        None \<Rightarrow> classify_matched keys resume_map
      | Some m \<Rightarrow>
          (case classify_matched keys resume_map of
             (strong, weak) \<Rightarrow>
               if double (9/10) \<le> confidence m then (m # strong, weak) else (strong, m # weak)))"

definition compute_impact :: "SkillMatch \<Rightarrow> pyfloat" where
  "compute_impact m =
     (let skill_weight = weight (skill m);
          category_weight = CATEGORY_WEIGHTS (category (skill m))
      in min (fdiv (fmul skill_weight category_weight) (3/2)) 1)"

definition determine_priority :: "pyfloat \<Rightarrow> Priority" where
  "determine_priority impact =
     (if double (8/10) \<le> impact then CRITICAL
      else if double (6/10) \<le> impact then HIGH
      else if double (4/10) \<le> impact then MEDIUM
      else LOW)"

fun missing_gaps :: "string list \<Rightarrow> (string \<times> SkillMatch) list \<Rightarrow> SkillGap list" where
  "missing_gaps [] jd_map = []"
| "missing_gaps (key # keys) jd_map =
     (case map_of jd_map key of
        None \<Rightarrow> missing_gaps keys jd_map
      | Some m \<Rightarrow>
          (let impact = compute_impact m
           in \<lparr>skill_match = m, priority = determine_priority impact, impact_score = impact\<rparr>
              # missing_gaps keys jd_map))"

text \<open>
  \<open>sorted(gaps, key=..., reverse=True)\<close> is stable: gaps of equal impact keep their order.
\<close>

definition analyze_missing :: "string list \<Rightarrow> (string \<times> SkillMatch) list \<Rightarrow> SkillGap list" where
  "analyze_missing keys jd_map = sort_key (\<lambda>g. - impact_score g) (missing_gaps keys jd_map)"

definition category_entry ::
  "SkillMatch list \<Rightarrow> SkillMatch list \<Rightarrow> SkillGap list \<Rightarrow> SkillCategory \<Rightarrow> CategoryAnalysis" where
  "category_entry matched weak missing cat =
     (let cat_matched = filter (\<lambda>m. category (skill m) = cat) matched;
          cat_weak = filter (\<lambda>m. category (skill m) = cat) weak;
          cat_missing = filter (\<lambda>g. gap_category g = cat) missing;
          total = length cat_matched + length cat_weak + length cat_missing
      in \<lparr>ca_category = cat,
          coverage = (if 0 < total
                      then fdiv (fadd (of_nat (length cat_matched))
                                      (fmul (1/2) (of_nat (length cat_weak))))
                                (of_nat total)
                      else 0),
          matched_count = length cat_matched,
          weak_count = length cat_weak,
          missing_count = length cat_missing\<rparr>)"

definition analyze_categories ::
  "set_iteration \<Rightarrow> SkillMatch list \<Rightarrow> SkillMatch list \<Rightarrow> SkillGap list
     \<Rightarrow> (SkillCategory \<times> CategoryAnalysis) list" where
  "analyze_categories it matched weak missing =
     (let all_categories =
            categories_iter it
              (remdups (map (\<lambda>m. category (skill m)) (matched @ weak) @ map gap_category missing))
      in map (\<lambda>cat. (cat, category_entry matched weak missing cat)) all_categories)"

definition compute_overall_score ::
  "SkillMatch list \<Rightarrow> SkillMatch list \<Rightarrow> string list \<Rightarrow> pyfloat" where
  "compute_overall_score matched weak jd_keys =
     (if jd_keys = [] then 0
      else fdiv (fadd (of_nat (length matched)) (fmul (1/2) (of_nat (length weak))))
                (of_nat (length jd_keys)))"

text \<open>\<open>sum\<close> starts from the integer \<open>0\<close> and adds the terms from left to right.\<close>

definition py_sum :: "pyfloat list \<Rightarrow> pyfloat" where
  "py_sum xs = foldl fadd 0 xs"

definition compute_confidence_score :: "SkillMatch list \<Rightarrow> SkillMatch list \<Rightarrow> pyfloat" where
  "compute_confidence_score matched weak =
     (if matched = [] \<and> weak = [] then 0
      else
        let total_weighted = py_sum (map (\<lambda>m. fmul (confidence m) (weight (skill m))) (matched @ weak));
            total_weights = py_sum (map (\<lambda>m. weight (skill m)) (matched @ weak))
        in if total_weights \<noteq> 0 then fdiv total_weighted total_weights else 0)"

fun join :: "string \<Rightarrow> string list \<Rightarrow> string" where
  "join sep [] = []"
| "join sep [x] = x"
| "join sep (x # y # ys) = x @ sep @ join sep (y # ys)"

definition generate_recommendations ::
  "SkillGap list \<Rightarrow> SkillMatch list \<Rightarrow> (SkillCategory \<times> CategoryAnalysis) list
     \<Rightarrow> Recommendation list" where
  "generate_recommendations missing weak categories =
     (let critical = filter (\<lambda>g. priority g = CRITICAL) missing;
          recs1 = (case critical of
                     [] \<Rightarrow> []
                   | g # _ \<Rightarrow>
                       [\<lparr>rec_priority = ''Critical'', title = ''Add Critical Skills'',
                         description = ''Missing essential skills: ''
                                        @ join '', '' (map skill_name (take 3 critical)),
                         action = ''Gain experience with '' @ skill_name g\<rparr>]);
          high = filter (\<lambda>g. priority g = HIGH) missing;
          recs2 = (case high of
                     [] \<Rightarrow> []
                   | g # _ \<Rightarrow>
                       [\<lparr>rec_priority = ''High'', title = ''Strengthen Core Skills'',
                         description = ''Important skills missing: ''
                                        @ join '', '' (map skill_name (take 3 high)),
                         action = ''Build projects using '' @ skill_name g\<rparr>]);
          recs3 = (if weak \<noteq> []
                   then [\<lparr>rec_priority = ''Medium'', title = ''Strengthen Weak Matches'',
                          description = ''Low-confidence matches: ''
                                         @ join '', '' (map (\<lambda>m. name (skill m)) (take 3 weak)),
                          action = ''Add concrete examples and metrics''\<rparr>]
                   else []);
          low_coverage = filter (\<lambda>c. coverage c < 1/2) (map snd categories);
          recs4 = (case low_coverage of
                     [] \<Rightarrow> []
                   | c # _ \<Rightarrow>
                       [\<lparr>rec_priority = ''Medium'', title = ''Improve Category Coverage'',
                         description = ''Low coverage in '' @ category_value (ca_category c),
                         action = ''Focus learning in '' @ category_value (ca_category c)
                                  @ '' technologies''\<rparr>])
      in take 5 (recs1 @ recs2 @ recs3 @ recs4))"

definition resume_keys :: "SkillMatch list \<Rightarrow> string list" where
  "resume_keys resume_skills = map fst (match_map resume_skills)"

definition jd_keys :: "SkillMatch list \<Rightarrow> string list" where
  "jd_keys jd_skills = map fst (match_map jd_skills)"

definition matched_keys :: "SkillMatch list \<Rightarrow> SkillMatch list \<Rightarrow> string list" where
  "matched_keys resume_skills jd_skills =
     filter (\<lambda>k. k \<in> set (jd_keys jd_skills)) (resume_keys resume_skills)"

definition missing_keys :: "SkillMatch list \<Rightarrow> SkillMatch list \<Rightarrow> string list" where
  "missing_keys resume_skills jd_skills =
     filter (\<lambda>k. k \<notin> set (resume_keys resume_skills)) (jd_keys jd_skills)"

definition analyze :: "set_iteration \<Rightarrow> SkillMatch list \<Rightarrow> SkillMatch list \<Rightarrow> GapAnalysisReport" where
  "analyze it resume_skills jd_skills =
     (let resume_map = match_map resume_skills;
          jd_map = match_map jd_skills;
          (matched, weak) =
             classify_matched (keys_iter it (matched_keys resume_skills jd_skills)) resume_map;
          missing = analyze_missing (keys_iter it (missing_keys resume_skills jd_skills)) jd_map;
          cats = analyze_categories it matched weak missing;
          recs = generate_recommendations missing weak cats;
          overall = compute_overall_score matched weak (jd_keys jd_skills);
          conf = compute_confidence_score matched weak
      in \<lparr>overall_score = overall, confidence_score = conf, matched_skills = matched,
          missing_skills = missing, weak_matches = weak, category_analysis = cats,
          recommendations = recs\<rparr>)"

text \<open>
  The matches the report is about, read off the two dictionaries: the resume's match of
  every key that the job description has too, and the job description's match of every
  key that the resume lacks.
\<close>

definition common_matches :: "SkillMatch list \<Rightarrow> SkillMatch list \<Rightarrow> SkillMatch list" where
  "common_matches resume_skills jd_skills =
     map snd (filter (\<lambda>(k, m). k \<in> set (jd_keys jd_skills)) (match_map resume_skills))"

definition missing_matches :: "SkillMatch list \<Rightarrow> SkillMatch list \<Rightarrow> SkillMatch list" where
  "missing_matches resume_skills jd_skills =
     map snd (filter (\<lambda>(k, m). k \<notin> set (resume_keys resume_skills)) (match_map jd_skills))"

text \<open>The gap that \<open>analyze_missing\<close> builds from a match of the job description.\<close>

definition gap_of :: "SkillMatch \<Rightarrow> SkillGap" where
  "gap_of m = \<lparr>skill_match = m, priority = determine_priority (compute_impact m),
               impact_score = compute_impact m\<rparr>"

text \<open>The iteration that visits every set in the order in which its elements were listed.\<close>

definition listed_order :: set_iteration where
  "listed_order = \<lparr>keys_iter = (\<lambda>ks. ks), categories_iter = (\<lambda>cs. cs)\<rparr>"

section \<open>Properties\<close>

subsection \<open>Rounding\<close>

lemma double_zero: "double 0 = 0"
  by (simp add: double_def)

lemma floor_rat_numeral: "\<lfloor>(numeral a :: rat) / numeral b\<rfloor> = numeral a div numeral b"
  by (metis floor_divide_of_int_eq of_int_numeral)

lemma normalise_up:
  "0 < m \<Longrightarrow> 2 ^ 52 \<le> m * 2 ^ k \<Longrightarrow> m * 2 ^ k < 2 ^ 53 \<Longrightarrow> k \<le> n \<Longrightarrow> - 1074 \<le> e - int k
   \<Longrightarrow> normalise n m e = (m * 2 ^ k, e - int k)"
proof (induction k arbitrary: n m e)
  case 0
  then show ?case by (cases n) auto
next
  case (Suc k)
  then obtain n' where n: "n = Suc n'" by (cases n) auto
  have "(1::rat) \<le> 2 ^ k" by simp
  then have "m * 2 * 1 \<le> m * 2 * 2 ^ k" using Suc.prems(1) by (intro mult_left_mono) auto
  then have lt: "m < 2 ^ 52" using Suc.prems(3) by simp
  have "normalise n' (m * 2) (e - 1) = (m * 2 * 2 ^ k, e - 1 - int k)"
    using Suc.prems n by (intro Suc.IH) (auto simp: algebra_simps)
  then show ?case using lt Suc.prems n by (simp add: algebra_simps)
qed

lemma double_scaled:
  assumes "0 < x" "2 ^ 52 \<le> x * 2 ^ k" "x * 2 ^ k < 2 ^ 53" "k \<le> 1074"
  shows "double x = of_int (rne (x * 2 ^ k)) / 2 ^ k"
proof -
  have "normalise 2200 \<bar>x\<bar> 0 = (\<bar>x\<bar> * 2 ^ k, 0 - int k)"
    using assms by (intro normalise_up) auto
  then show ?thesis using assms(1)
    by (simp add: double_def power_int_minus field_simps)
qed

lemma double_one: "double 1 = 1"
  by (subst double_scaled[where k=52]) (simp_all add: rne_def Let_def floor_rat_numeral)

lemma double_half: "double (1/2) = 1/2"
  by (subst double_scaled[where k=53]) (simp_all add: rne_def Let_def floor_rat_numeral)

lemma double_9_10: "double (9/10) = 8106479329266893 / 9007199254740992"
  by (subst double_scaled[where k=53]) (simp_all add: rne_def Let_def floor_rat_numeral)

lemma double_8_10: "double (8/10) = 7205759403792794 / 9007199254740992"
  by (subst double_scaled[where k=53]) (simp_all add: rne_def Let_def floor_rat_numeral)

lemma double_6_10: "double (6/10) = 5404319552844595 / 9007199254740992"
  by (subst double_scaled[where k=53]) (simp_all add: rne_def Let_def floor_rat_numeral)

lemma double_3_5: "double (3/5) = 5404319552844595 / 9007199254740992"
  using double_6_10 by simp

lemma double_4_5: "double (4/5) = 7205759403792794 / 9007199254740992"
  using double_8_10 by simp

lemma double_4_10: "double (4/10) = 7205759403792794 / 18014398509481984"
  by (subst double_scaled[where k=54]) (simp_all add: rne_def Let_def floor_rat_numeral)

lemma double_12_10: "double (12/10) = 5404319552844595 / 4503599627370496"
  by (subst double_scaled[where k=52]) (simp_all add: rne_def Let_def floor_rat_numeral)

lemma double_9_10_fix: "double (8106479329266893 / 9007199254740992) = 8106479329266893 / 9007199254740992"
  by (subst double_scaled[where k=53]) (simp_all add: rne_def Let_def floor_rat_numeral)

lemma double_12_10_fix: "double (5404319552844595 / 4503599627370496) = 5404319552844595 / 4503599627370496"
  by (subst double_scaled[where k=52]) (simp_all add: rne_def Let_def floor_rat_numeral)

lemma impact_devops_1: "fdiv (fmul 1 (double (9/10))) (3/2) = double (6/10)"
proof -
  have "double (8106479329266893 / 9007199254740992 / (3/2)) = 5404319552844595 / 9007199254740992"
    by (subst double_scaled[where k=53]) (simp_all add: rne_def Let_def floor_rat_numeral)
  then show ?thesis
    by (simp only: fdiv_def fmul_def double_9_10 double_6_10 mult_1 double_9_10_fix)
qed

lemma impact_languages_1: "fdiv (fmul 1 (double (12/10))) (3/2) = 7205759403792793 / 9007199254740992"
proof -
  have "double (5404319552844595 / 4503599627370496 / (3/2)) = 7205759403792793 / 9007199254740992"
    by (subst double_scaled[where k=53]) (simp_all add: rne_def Let_def floor_rat_numeral)
  then show ?thesis
    by (simp only: fdiv_def fmul_def double_12_10 mult_1 double_12_10_fix)
qed


subsection \<open>Character tables\<close>

lemma lower_char_table:
  "lower_char (CHR '' '') = CHR '' ''" "lower_char (CHR ''!'') = CHR ''!''"
  "lower_char (CHR 0x22) = CHR 0x22" "lower_char (CHR ''#'') = CHR ''#''"
  "lower_char (CHR ''$'') = CHR ''$''" "lower_char (CHR ''%'') = CHR ''%''"
  "lower_char (CHR ''&'') = CHR ''&''" "lower_char (CHR ''('') = CHR ''(''"
  "lower_char (CHR '')'') = CHR '')''" "lower_char (CHR ''*'') = CHR ''*''"
  "lower_char (CHR ''+'') = CHR ''+''" "lower_char (CHR '','') = CHR '',''"
  "lower_char (CHR ''-'') = CHR ''-''" "lower_char (CHR ''.'') = CHR ''.''"
  "lower_char (CHR ''/'') = CHR ''/''" "lower_char (CHR ''0'') = CHR ''0''"
  "lower_char (CHR ''1'') = CHR ''1''" "lower_char (CHR ''2'') = CHR ''2''"
  "lower_char (CHR ''3'') = CHR ''3''" "lower_char (CHR ''4'') = CHR ''4''"
  "lower_char (CHR ''5'') = CHR ''5''" "lower_char (CHR ''6'') = CHR ''6''"
  "lower_char (CHR ''7'') = CHR ''7''" "lower_char (CHR ''8'') = CHR ''8''"
  "lower_char (CHR ''9'') = CHR ''9''" "lower_char (CHR '':'') = CHR '':''"
  "lower_char (CHR '';'') = CHR '';''" "lower_char (CHR ''<'') = CHR ''<''"
  "lower_char (CHR ''='') = CHR ''=''" "lower_char (CHR ''>'') = CHR ''>''"
  "lower_char (CHR ''?'') = CHR ''?''" "lower_char (CHR ''@'') = CHR ''@''"
  "lower_char (CHR ''A'') = CHR ''a''" "lower_char (CHR ''B'') = CHR ''b''"
  "lower_char (CHR ''C'') = CHR ''c''" "lower_char (CHR ''D'') = CHR ''d''"
  "lower_char (CHR ''E'') = CHR ''e''" "lower_char (CHR ''F'') = CHR ''f''"
  "lower_char (CHR ''G'') = CHR ''g''" "lower_char (CHR ''H'') = CHR ''h''"
  "lower_char (CHR ''I'') = CHR ''i''" "lower_char (CHR ''J'') = CHR ''j''"
  "lower_char (CHR ''K'') = CHR ''k''" "lower_char (CHR ''L'') = CHR ''l''"
  "lower_char (CHR ''M'') = CHR ''m''" "lower_char (CHR ''N'') = CHR ''n''"
  "lower_char (CHR ''O'') = CHR ''o''" "lower_char (CHR ''P'') = CHR ''p''"
  "lower_char (CHR ''Q'') = CHR ''q''" "lower_char (CHR ''R'') = CHR ''r''"
  "lower_char (CHR ''S'') = CHR ''s''" "lower_char (CHR ''T'') = CHR ''t''"
  "lower_char (CHR ''U'') = CHR ''u''" "lower_char (CHR ''V'') = CHR ''v''"
  "lower_char (CHR ''W'') = CHR ''w''" "lower_char (CHR ''X'') = CHR ''x''"
  "lower_char (CHR ''Y'') = CHR ''y''" "lower_char (CHR ''Z'') = CHR ''z''"
  "lower_char (CHR ''['') = CHR ''[''" "lower_char (CHR '']'') = CHR '']''"
  "lower_char (CHR ''^'') = CHR ''^''" "lower_char (CHR ''_'') = CHR ''_''"
  "lower_char (CHR 0x60) = CHR 0x60" "lower_char (CHR ''a'') = CHR ''a''"
  "lower_char (CHR ''b'') = CHR ''b''" "lower_char (CHR ''c'') = CHR ''c''"
  "lower_char (CHR ''d'') = CHR ''d''" "lower_char (CHR ''e'') = CHR ''e''"
  "lower_char (CHR ''f'') = CHR ''f''" "lower_char (CHR ''g'') = CHR ''g''"
  "lower_char (CHR ''h'') = CHR ''h''" "lower_char (CHR ''i'') = CHR ''i''"
  "lower_char (CHR ''j'') = CHR ''j''" "lower_char (CHR ''k'') = CHR ''k''"
  "lower_char (CHR ''l'') = CHR ''l''" "lower_char (CHR ''m'') = CHR ''m''"
  "lower_char (CHR ''n'') = CHR ''n''" "lower_char (CHR ''o'') = CHR ''o''"
  "lower_char (CHR ''p'') = CHR ''p''" "lower_char (CHR ''q'') = CHR ''q''"
  "lower_char (CHR ''r'') = CHR ''r''" "lower_char (CHR ''s'') = CHR ''s''"
  "lower_char (CHR ''t'') = CHR ''t''" "lower_char (CHR ''u'') = CHR ''u''"
  "lower_char (CHR ''v'') = CHR ''v''" "lower_char (CHR ''w'') = CHR ''w''"
  "lower_char (CHR ''x'') = CHR ''x''" "lower_char (CHR ''y'') = CHR ''y''"
  "lower_char (CHR ''z'') = CHR ''z''" "lower_char (CHR ''{'') = CHR ''{''"
  "lower_char (CHR ''|'') = CHR ''|''" "lower_char (CHR ''}'') = CHR ''}''"
  "lower_char (CHR ''~'') = CHR ''~''"
  by (simp_all add: lower_char_def)

lemma is_space_table:
  "is_space (CHR '' '')" "\<not> is_space (CHR ''!'')" "\<not> is_space (CHR 0x22)"
  "\<not> is_space (CHR ''#'')" "\<not> is_space (CHR ''$'')" "\<not> is_space (CHR ''%'')"
  "\<not> is_space (CHR ''&'')" "\<not> is_space (CHR ''('')" "\<not> is_space (CHR '')'')"
  "\<not> is_space (CHR ''*'')" "\<not> is_space (CHR ''+'')" "\<not> is_space (CHR '','')"
  "\<not> is_space (CHR ''-'')" "\<not> is_space (CHR ''.'')" "\<not> is_space (CHR ''/'')"
  "\<not> is_space (CHR ''0'')" "\<not> is_space (CHR ''1'')" "\<not> is_space (CHR ''2'')"
  "\<not> is_space (CHR ''3'')" "\<not> is_space (CHR ''4'')" "\<not> is_space (CHR ''5'')"
  "\<not> is_space (CHR ''6'')" "\<not> is_space (CHR ''7'')" "\<not> is_space (CHR ''8'')"
  "\<not> is_space (CHR ''9'')" "\<not> is_space (CHR '':'')" "\<not> is_space (CHR '';'')"
  "\<not> is_space (CHR ''<'')" "\<not> is_space (CHR ''='')" "\<not> is_space (CHR ''>'')"
  "\<not> is_space (CHR ''?'')" "\<not> is_space (CHR ''@'')" "\<not> is_space (CHR ''A'')"
  "\<not> is_space (CHR ''B'')" "\<not> is_space (CHR ''C'')" "\<not> is_space (CHR ''D'')"
  "\<not> is_space (CHR ''E'')" "\<not> is_space (CHR ''F'')" "\<not> is_space (CHR ''G'')"
  "\<not> is_space (CHR ''H'')" "\<not> is_space (CHR ''I'')" "\<not> is_space (CHR ''J'')"
  "\<not> is_space (CHR ''K'')" "\<not> is_space (CHR ''L'')" "\<not> is_space (CHR ''M'')"
  "\<not> is_space (CHR ''N'')" "\<not> is_space (CHR ''O'')" "\<not> is_space (CHR ''P'')"
  "\<not> is_space (CHR ''Q'')" "\<not> is_space (CHR ''R'')" "\<not> is_space (CHR ''S'')"
  "\<not> is_space (CHR ''T'')" "\<not> is_space (CHR ''U'')" "\<not> is_space (CHR ''V'')"
  "\<not> is_space (CHR ''W'')" "\<not> is_space (CHR ''X'')" "\<not> is_space (CHR ''Y'')"
  "\<not> is_space (CHR ''Z'')" "\<not> is_space (CHR ''['')" "\<not> is_space (CHR '']'')"
  "\<not> is_space (CHR ''^'')" "\<not> is_space (CHR ''_'')" "\<not> is_space (CHR 0x60)"
  "\<not> is_space (CHR ''a'')" "\<not> is_space (CHR ''b'')" "\<not> is_space (CHR ''c'')"
  "\<not> is_space (CHR ''d'')" "\<not> is_space (CHR ''e'')" "\<not> is_space (CHR ''f'')"
  "\<not> is_space (CHR ''g'')" "\<not> is_space (CHR ''h'')" "\<not> is_space (CHR ''i'')"
  "\<not> is_space (CHR ''j'')" "\<not> is_space (CHR ''k'')" "\<not> is_space (CHR ''l'')"
  "\<not> is_space (CHR ''m'')" "\<not> is_space (CHR ''n'')" "\<not> is_space (CHR ''o'')"
  "\<not> is_space (CHR ''p'')" "\<not> is_space (CHR ''q'')" "\<not> is_space (CHR ''r'')"
  "\<not> is_space (CHR ''s'')" "\<not> is_space (CHR ''t'')" "\<not> is_space (CHR ''u'')"
  "\<not> is_space (CHR ''v'')" "\<not> is_space (CHR ''w'')" "\<not> is_space (CHR ''x'')"
  "\<not> is_space (CHR ''y'')" "\<not> is_space (CHR ''z'')" "\<not> is_space (CHR ''{'')"
  "\<not> is_space (CHR ''|'')" "\<not> is_space (CHR ''}'')" "\<not> is_space (CHR ''~'')"
  by (simp_all add: is_space_def)

lemma is_word_char_table:
  "\<not> is_word_char (CHR '' '')" "\<not> is_word_char (CHR ''!'')"
  "\<not> is_word_char (CHR 0x22)" "\<not> is_word_char (CHR ''#'')"
  "\<not> is_word_char (CHR ''$'')" "\<not> is_word_char (CHR ''%'')"
  "\<not> is_word_char (CHR ''&'')" "\<not> is_word_char (CHR ''('')"
  "\<not> is_word_char (CHR '')'')" "\<not> is_word_char (CHR ''*'')"
  "\<not> is_word_char (CHR ''+'')" "\<not> is_word_char (CHR '','')"
  "\<not> is_word_char (CHR ''-'')" "\<not> is_word_char (CHR ''.'')"
  "\<not> is_word_char (CHR ''/'')" "is_word_char (CHR ''0'')" "is_word_char (CHR ''1'')"
  "is_word_char (CHR ''2'')" "is_word_char (CHR ''3'')" "is_word_char (CHR ''4'')"
  "is_word_char (CHR ''5'')" "is_word_char (CHR ''6'')" "is_word_char (CHR ''7'')"
  "is_word_char (CHR ''8'')" "is_word_char (CHR ''9'')" "\<not> is_word_char (CHR '':'')"
  "\<not> is_word_char (CHR '';'')" "\<not> is_word_char (CHR ''<'')"
  "\<not> is_word_char (CHR ''='')" "\<not> is_word_char (CHR ''>'')"
  "\<not> is_word_char (CHR ''?'')" "\<not> is_word_char (CHR ''@'')" "is_word_char (CHR ''A'')"
  "is_word_char (CHR ''B'')" "is_word_char (CHR ''C'')" "is_word_char (CHR ''D'')"
  "is_word_char (CHR ''E'')" "is_word_char (CHR ''F'')" "is_word_char (CHR ''G'')"
  "is_word_char (CHR ''H'')" "is_word_char (CHR ''I'')" "is_word_char (CHR ''J'')"
  "is_word_char (CHR ''K'')" "is_word_char (CHR ''L'')" "is_word_char (CHR ''M'')"
  "is_word_char (CHR ''N'')" "is_word_char (CHR ''O'')" "is_word_char (CHR ''P'')"
  "is_word_char (CHR ''Q'')" "is_word_char (CHR ''R'')" "is_word_char (CHR ''S'')"
  "is_word_char (CHR ''T'')" "is_word_char (CHR ''U'')" "is_word_char (CHR ''V'')"
  "is_word_char (CHR ''W'')" "is_word_char (CHR ''X'')" "is_word_char (CHR ''Y'')"
  "is_word_char (CHR ''Z'')" "\<not> is_word_char (CHR ''['')" "\<not> is_word_char (CHR '']'')"
  "\<not> is_word_char (CHR ''^'')" "is_word_char (CHR ''_'')" "\<not> is_word_char (CHR 0x60)"
  "is_word_char (CHR ''a'')" "is_word_char (CHR ''b'')" "is_word_char (CHR ''c'')"
  "is_word_char (CHR ''d'')" "is_word_char (CHR ''e'')" "is_word_char (CHR ''f'')"
  "is_word_char (CHR ''g'')" "is_word_char (CHR ''h'')" "is_word_char (CHR ''i'')"
  "is_word_char (CHR ''j'')" "is_word_char (CHR ''k'')" "is_word_char (CHR ''l'')"
  "is_word_char (CHR ''m'')" "is_word_char (CHR ''n'')" "is_word_char (CHR ''o'')"
  "is_word_char (CHR ''p'')" "is_word_char (CHR ''q'')" "is_word_char (CHR ''r'')"
  "is_word_char (CHR ''s'')" "is_word_char (CHR ''t'')" "is_word_char (CHR ''u'')"
  "is_word_char (CHR ''v'')" "is_word_char (CHR ''w'')" "is_word_char (CHR ''x'')"
  "is_word_char (CHR ''y'')" "is_word_char (CHR ''z'')" "\<not> is_word_char (CHR ''{'')"
  "\<not> is_word_char (CHR ''|'')" "\<not> is_word_char (CHR ''}'')"
  "\<not> is_word_char (CHR ''~'')"
  by (simp_all add: is_word_char_def)

lemma is_digit_table:
  "\<not> is_digit (CHR '' '')" "\<not> is_digit (CHR ''!'')" "\<not> is_digit (CHR 0x22)"
  "\<not> is_digit (CHR ''#'')" "\<not> is_digit (CHR ''$'')" "\<not> is_digit (CHR ''%'')"
  "\<not> is_digit (CHR ''&'')" "\<not> is_digit (CHR ''('')" "\<not> is_digit (CHR '')'')"
  "\<not> is_digit (CHR ''*'')" "\<not> is_digit (CHR ''+'')" "\<not> is_digit (CHR '','')"
  "\<not> is_digit (CHR ''-'')" "\<not> is_digit (CHR ''.'')" "\<not> is_digit (CHR ''/'')"
  "is_digit (CHR ''0'')" "is_digit (CHR ''1'')" "is_digit (CHR ''2'')" "is_digit (CHR ''3'')"
  "is_digit (CHR ''4'')" "is_digit (CHR ''5'')" "is_digit (CHR ''6'')" "is_digit (CHR ''7'')"
  "is_digit (CHR ''8'')" "is_digit (CHR ''9'')" "\<not> is_digit (CHR '':'')"
  "\<not> is_digit (CHR '';'')" "\<not> is_digit (CHR ''<'')" "\<not> is_digit (CHR ''='')"
  "\<not> is_digit (CHR ''>'')" "\<not> is_digit (CHR ''?'')" "\<not> is_digit (CHR ''@'')"
  "\<not> is_digit (CHR ''A'')" "\<not> is_digit (CHR ''B'')" "\<not> is_digit (CHR ''C'')"
  "\<not> is_digit (CHR ''D'')" "\<not> is_digit (CHR ''E'')" "\<not> is_digit (CHR ''F'')"
  "\<not> is_digit (CHR ''G'')" "\<not> is_digit (CHR ''H'')" "\<not> is_digit (CHR ''I'')"
  "\<not> is_digit (CHR ''J'')" "\<not> is_digit (CHR ''K'')" "\<not> is_digit (CHR ''L'')"
  "\<not> is_digit (CHR ''M'')" "\<not> is_digit (CHR ''N'')" "\<not> is_digit (CHR ''O'')"
  "\<not> is_digit (CHR ''P'')" "\<not> is_digit (CHR ''Q'')" "\<not> is_digit (CHR ''R'')"
  "\<not> is_digit (CHR ''S'')" "\<not> is_digit (CHR ''T'')" "\<not> is_digit (CHR ''U'')"
  "\<not> is_digit (CHR ''V'')" "\<not> is_digit (CHR ''W'')" "\<not> is_digit (CHR ''X'')"
  "\<not> is_digit (CHR ''Y'')" "\<not> is_digit (CHR ''Z'')" "\<not> is_digit (CHR ''['')"
  "\<not> is_digit (CHR '']'')" "\<not> is_digit (CHR ''^'')" "\<not> is_digit (CHR ''_'')"
  "\<not> is_digit (CHR 0x60)" "\<not> is_digit (CHR ''a'')" "\<not> is_digit (CHR ''b'')"
  "\<not> is_digit (CHR ''c'')" "\<not> is_digit (CHR ''d'')" "\<not> is_digit (CHR ''e'')"
  "\<not> is_digit (CHR ''f'')" "\<not> is_digit (CHR ''g'')" "\<not> is_digit (CHR ''h'')"
  "\<not> is_digit (CHR ''i'')" "\<not> is_digit (CHR ''j'')" "\<not> is_digit (CHR ''k'')"
  "\<not> is_digit (CHR ''l'')" "\<not> is_digit (CHR ''m'')" "\<not> is_digit (CHR ''n'')"
  "\<not> is_digit (CHR ''o'')" "\<not> is_digit (CHR ''p'')" "\<not> is_digit (CHR ''q'')"
  "\<not> is_digit (CHR ''r'')" "\<not> is_digit (CHR ''s'')" "\<not> is_digit (CHR ''t'')"
  "\<not> is_digit (CHR ''u'')" "\<not> is_digit (CHR ''v'')" "\<not> is_digit (CHR ''w'')"
  "\<not> is_digit (CHR ''x'')" "\<not> is_digit (CHR ''y'')" "\<not> is_digit (CHR ''z'')"
  "\<not> is_digit (CHR ''{'')" "\<not> is_digit (CHR ''|'')" "\<not> is_digit (CHR ''}'')"
  "\<not> is_digit (CHR ''~'')"
  by (simp_all add: is_digit_def)

lemmas char_tables = lower_char_table is_space_table is_word_char_table is_digit_table

subsection \<open>Taxonomy\<close>

lemmas skill_defs = Python_def Java_def JavaScript_def Go_def Docker_def Git_def Algorithms_def
  Data_Structures_def

lemma update_fresh: "k \<notin> fst ` set al \<Longrightarrow> AList.update k v al = al @ [(k, v)]"
  by (induction al) auto

lemma variant_fold_lookup:
  "map_of (foldl (\<lambda>vi v. AList.update v s vi) vi vs) v =
     (if v \<in> set vs then Some s else map_of vi v)"
  by (induction vs arbitrary: vi) (auto simp: update_conv')

lemma register_variant_lookup:
  "map_of (variant_index (register T s)) v =
     (if v \<in> set (variants s) then Some s else map_of (variant_index T) v)"
  by (simp add: register_def variant_fold_lookup)

lemma register_skill_lookup:
  "map_of (skills (register T s)) k = (if k = lower (name s) then Some s else map_of (skills T) k)"
  by (simp add: register_def update_conv')

lemma skills_fold_register:
  "distinct (map (\<lambda>s. lower (name s)) ss) \<Longrightarrow>
   (\<forall>s \<in> set ss. lower (name s) \<notin> fst ` set (skills T)) \<Longrightarrow>
   skills (foldl register T ss) = skills T @ map (\<lambda>s. (lower (name s), s)) ss"
proof (induction ss arbitrary: T)
  case Nil
  then show ?case by simp
next
  case (Cons s ss)
  have s: "skills (register T s) = skills T @ [(lower (name s), s)]"
    using Cons.prems(2) by (simp add: register_def update_fresh)
  have d: "distinct (map (\<lambda>s. lower (name s)) ss)"
    using Cons.prems(1) by simp
  have f: "\<forall>t \<in> set ss. lower (name t) \<notin> fst ` set (skills (register T s))"
  proof
    fix t assume t: "t \<in> set ss"
    then have "lower (name t) \<noteq> lower (name s)"
      using Cons.prems(1) by (auto simp: image_iff)
    moreover have "lower (name t) \<notin> fst ` set (skills T)"
      using Cons.prems(2) t by simp
    ultimately show "lower (name t) \<notin> fst ` set (skills (register T s))"
      by (auto simp: s)
  qed
  have "skills (foldl register (register T s) ss) =
        skills (register T s) @ map (\<lambda>s. (lower (name s), s)) ss"
    by (rule Cons.IH[OF d f])
  then show ?case by (simp add: s)
qed

lemma skills_data_eval:
  "map (\<lambda>s. (lower (name s), variants s)) skills_data =
    [(''python'', [''python'', ''python3'', ''py'']),
     (''java'', [''java'', ''java8'', ''java11'']),
     (''javascript'', [''javascript'', ''js'', ''es6'']),
     (''typescript'', [''typescript'', ''ts'']),
     (''c++'', [''c++'', ''cpp'', ''cplusplus'']),
     (''c'', [''c programming'']),
     (''c#'', [''c#'', ''csharp'']),
     (''go'', [''golang'']),
     (''react'', [''react'', ''reactjs'']),
     (''angular'', [''angular'']),
     (''vue.js'', [''vue'', ''vuejs'']),
     (''node.js'', [''nodejs'', ''node'']),
     (''django'', [''django'']),
     (''flask'', [''flask'']),
     (''spring boot'', [''spring boot'', ''spring'']),
     (''.net'', [''dotnet'', ''.net'']),
     (''tensorflow'', [''tensorflow'', ''tf'']),
     (''pytorch'', [''pytorch'', ''torch'']),
     (''scikit-learn'', [''sklearn'']),
     (''docker'', [''docker'']),
     (''kubernetes'', [''kubernetes'', ''k8s'']),
     (''git'', [''git'', ''github'']),
     (''aws'', [''aws'', ''amazon web services'']),
     (''azure'', [''azure'']),
     (''gcp'', [''gcp'', ''google cloud'']),
     (''sql'', [''sql'']),
     (''mysql'', [''mysql'']),
     (''postgresql'', [''postgresql'', ''postgres'']),
     (''mongodb'', [''mongodb'', ''mongo'']),
     (''algorithms'', [''algorithms'', ''algo'', ''dsa'']),
     (''data structures'', [''data structures'', ''dsa'']),
     (''oop'', [''oop'', ''object oriented'']),
     (''system design'', [''system design'', ''architecture''])]"
  by (simp add: skills_data_def skill_defs make_Skill_def lower_def strip_def char_tables)

lemma distinct_skill_keys: "distinct (map (\<lambda>s. lower (name s)) skills_data)"
proof -
  have "map (\<lambda>s. lower (name s)) skills_data =
        map fst (map (\<lambda>s. (lower (name s), variants s)) skills_data)"
    by (simp add: comp_def)
  then show ?thesis unfolding skills_data_eval by simp
qed

lemma all_skills_new_taxonomy: "get_all_skills new_taxonomy = skills_data"
proof -
  have "skills (foldl register empty_taxonomy skills_data) =
        skills empty_taxonomy @ map (\<lambda>s. (lower (name s), s)) skills_data"
    by (rule skills_fold_register[OF distinct_skill_keys]) (simp add: empty_taxonomy_def)
  then show ?thesis
    by (simp add: get_all_skills_def new_taxonomy_def load_skills_def empty_taxonomy_def comp_def)
qed

lemma distinct_other_variants:
  "distinct (concat (map (\<lambda>s. filter (\<lambda>v. v \<noteq> ''dsa'') (variants s)) skills_data))"
proof -
  have "concat (map (\<lambda>s. filter (\<lambda>v. v \<noteq> ''dsa'') (variants s)) skills_data) =
        concat (map (\<lambda>p. filter (\<lambda>v. v \<noteq> ''dsa'') (snd p))
                 (map (\<lambda>s. (lower (name s), variants s)) skills_data))"
    by (simp add: comp_def)
  then show ?thesis unfolding skills_data_eval by simp
qed

lemma distinct_concat_unique:
  "distinct (concat (map f xs)) \<Longrightarrow> s \<in> set xs \<Longrightarrow> t \<in> set xs \<Longrightarrow> v \<in> set (f s) \<Longrightarrow>
   v \<in> set (f t) \<Longrightarrow> s = t"
  by (induction xs) auto

lemma shared_variant_dsa:
  assumes "s \<in> set skills_data" "t \<in> set skills_data" "s \<noteq> t"
    "v \<in> set (variants s)" "v \<in> set (variants t)"
  shows "v = ''dsa''"
proof (rule ccontr)
  assume "v \<noteq> ''dsa''"
  then have "v \<in> set (filter (\<lambda>v. v \<noteq> ''dsa'') (variants s))"
    "v \<in> set (filter (\<lambda>v. v \<noteq> ''dsa'') (variants t))"
    using assms by simp_all
  then have "s = t"
    using distinct_concat_unique[OF distinct_other_variants assms(1,2)] by blast
  then show False using assms(3) by simp
qed

lemma fold_register_variant_lookup:
  "map_of (variant_index (foldl register T ss)) v =
     (case List.find (\<lambda>s. v \<in> set (variants s)) (rev ss) of
        Some s \<Rightarrow> Some s
      | None \<Rightarrow> map_of (variant_index T) v)"
proof (induction ss rule: rev_induct)
  case Nil
  then show ?case by simp
next
  case (snoc s ss)
  then show ?case by (simp add: register_variant_lookup)
qed

lemma dsa_variants:
  "''dsa'' \<in> set (variants Data_Structures)" "''dsa'' \<in> set (variants Algorithms)"
  "''dsa'' \<notin> set (variants (make_Skill ''OOP'' FUNDAMENTALS (double (11/10)) [''oop'', ''object oriented''] False))"
  "''dsa'' \<notin> set (variants (make_Skill ''System Design'' FUNDAMENTALS (double (12/10)) [''system design'', ''architecture''] False))"
  by (simp_all add: skill_defs make_Skill_def lower_def strip_def char_tables)

lemma dsa_lookup: "get_by_variant new_taxonomy ''dsa'' = Some Data_Structures"
proof -
  have l: "lower ''dsa'' = ''dsa''" by (simp add: lower_def char_tables)
  obtain front where f: "skills_data = front @ [Data_Structures,
      make_Skill ''OOP'' FUNDAMENTALS (double (11/10)) [''oop'', ''object oriented''] False,
      make_Skill ''System Design'' FUNDAMENTALS (double (12/10)) [''system design'', ''architecture''] False]"
    unfolding skills_data_def by (metis append_Cons append_Nil)
  have "List.find (\<lambda>s. ''dsa'' \<in> set (variants s)) (rev skills_data) = Some Data_Structures"
    unfolding f
    by (simp only: rev_append rev.simps append.simps List.find.simps dsa_variants if_True if_False)
  then show ?thesis
    by (simp add: get_by_variant_def l new_taxonomy_def load_skills_def fold_register_variant_lookup)
qed

lemma dsa_skills_differ: "Algorithms \<noteq> Data_Structures"
  by (simp add: Algorithms_def Data_Structures_def make_Skill_def)

text \<open>
  Claim C2, as stated, fails: \<open>register\<close> has no failing branch, and after construction the
  distinct skills Algorithms and Data Structures both list the variant \<open>dsa\<close>.
\<close>

theorem taxonomy_shares_dsa:
  "Algorithms \<in> set (get_all_skills new_taxonomy) \<and>
   Data_Structures \<in> set (get_all_skills new_taxonomy) \<and>
   Algorithms \<noteq> Data_Structures \<and>
   ''dsa'' \<in> set (variants Algorithms) \<and>
   ''dsa'' \<in> set (variants Data_Structures)"
  unfolding all_skills_new_taxonomy
  apply (intro conjI)
  subgoal by (simp add: skills_data_def)
  subgoal by (simp add: skills_data_def)
  subgoal by (rule dsa_skills_differ)
  subgoal by (simp add: Algorithms_def make_Skill_def lower_def strip_def char_tables)
  subgoal by (simp add: Data_Structures_def make_Skill_def lower_def strip_def char_tables)
  done

text \<open>
  Claim C2, amended. Registering a skill never fails and checks no conflict: the skill is
  stored under its lowercased name and each of its variants is mapped to it, replacing what
  was registered under that name or variant before and leaving every other entry as it
  was. After construction two distinct skills share no variant other than \<open>dsa\<close>, which
  the variant index resolves to Data Structures, the later registration.
\<close>

theorem register_overwrites:
  "map_of (skills (register T s)) (lower (name s)) = Some s \<and>
   (\<forall>k. k \<noteq> lower (name s) \<longrightarrow> map_of (skills (register T s)) k = map_of (skills T) k) \<and>
   (\<forall>v \<in> set (variants s). map_of (variant_index (register T s)) v = Some s) \<and>
   (\<forall>v. v \<notin> set (variants s) \<longrightarrow>
        map_of (variant_index (register T s)) v = map_of (variant_index T) v) \<and>
   (\<forall>a \<in> set (get_all_skills new_taxonomy). \<forall>b \<in> set (get_all_skills new_taxonomy).
      \<forall>v. a \<noteq> b \<and> v \<in> set (variants a) \<and> v \<in> set (variants b) \<longrightarrow> v = ''dsa'') \<and>
   get_by_variant new_taxonomy ''dsa'' = Some Data_Structures"
  unfolding all_skills_new_taxonomy
  apply (intro conjI)
  subgoal by (simp add: register_skill_lookup)
  subgoal by (simp add: register_skill_lookup)
  subgoal by (simp add: register_variant_lookup)
  subgoal by (simp add: register_variant_lookup)
  subgoal using shared_variant_dsa by blast
  subgoal by (rule dsa_lookup)
  done

theorem register_overwrites_witness:
  "''dsa'' \<in> set (variants Data_Structures) \<and>
   ''golang'' \<notin> set (variants Data_Structures) \<and>
   map_of (variant_index (register (register empty_taxonomy Algorithms) Data_Structures)) ''dsa'' =
     Some Data_Structures \<and>
   map_of (variant_index (register (register empty_taxonomy Algorithms) Data_Structures)) ''golang'' =
     map_of (variant_index (register empty_taxonomy Algorithms)) ''golang'' \<and>
   ''dsa'' \<noteq> lower (name Data_Structures) \<and>
   map_of (skills (register (register empty_taxonomy Algorithms) Data_Structures)) ''dsa'' =
     map_of (skills (register empty_taxonomy Algorithms)) ''dsa'' \<and>
   Algorithms \<in> set (get_all_skills new_taxonomy) \<and>
   Data_Structures \<in> set (get_all_skills new_taxonomy) \<and>
   Algorithms \<noteq> Data_Structures \<and>
   ''dsa'' \<in> set (variants Algorithms)"
proof -
  have v: "''dsa'' \<in> set (variants Data_Structures)" "''golang'' \<notin> set (variants Data_Structures)"
    "''dsa'' \<in> set (variants Algorithms)"
    by (simp_all add: Algorithms_def Data_Structures_def make_Skill_def lower_def strip_def char_tables)
  have m: "Algorithms \<in> set (get_all_skills new_taxonomy)"
    "Data_Structures \<in> set (get_all_skills new_taxonomy)"
    unfolding all_skills_new_taxonomy by (simp_all add: skills_data_def)
  note r = register_overwrites[of "register empty_taxonomy Algorithms" Data_Structures]
  have a: "map_of (variant_index (register (register empty_taxonomy Algorithms) Data_Structures)) ''dsa'' =
     Some Data_Structures"
    using r v(1) by blast
  have b: "map_of (variant_index (register (register empty_taxonomy Algorithms) Data_Structures)) ''golang'' =
     map_of (variant_index (register empty_taxonomy Algorithms)) ''golang''"
    using r v(2) by blast
  have k: "''dsa'' \<noteq> lower (name Data_Structures)"
    by (simp add: Data_Structures_def make_Skill_def lower_def char_tables)
  have c: "map_of (skills (register (register empty_taxonomy Algorithms) Data_Structures)) ''dsa'' =
     map_of (skills (register empty_taxonomy Algorithms)) ''dsa''"
    using r k by blast
  show ?thesis
    using v m a b c k dsa_skills_differ by blast
qed

subsection \<open>Gap analysis\<close>

lemma valid_iteration_Nil: "valid_iteration it \<Longrightarrow> keys_iter it [] = []"
  "valid_iteration it \<Longrightarrow> categories_iter it [] = []"
  unfolding valid_iteration_def by (metis mset_zero_iff)+

lemma match_map_fold_distinct:
  "distinct (map fst d) \<Longrightarrow> distinct (map fst (foldl (\<lambda>d m. AList.update (match_key m) m d) d ms))"
  by (induction ms arbitrary: d) (simp_all add: distinct_update)

lemma match_map_fold_keys:
  "fst ` set (foldl (\<lambda>d m. AList.update (match_key m) m d) d ms) = fst ` set d \<union> match_key ` set ms"
  by (induction ms arbitrary: d) (auto simp: dom_update)

lemma distinct_match_map: "distinct (map fst (match_map ms))"
  unfolding match_map_def by (rule match_map_fold_distinct) simp

lemma keys_match_map: "set (map fst (match_map ms)) = match_key ` set ms"
  unfolding match_map_def using match_map_fold_keys[of "[]" ms] by simp

lemma classify_matched_eq:
  "classify_matched ks d =
     (filter (\<lambda>m. double (9/10) \<le> confidence m) (List.map_filter (map_of d) ks),
      filter (\<lambda>m. \<not> double (9/10) \<le> confidence m) (List.map_filter (map_of d) ks))"
  by (induction ks) (auto simp: List.map_filter_simps split: option.splits)

lemma mset_map_filter_cong:
  "mset ks = mset ks' \<Longrightarrow> mset (List.map_filter f ks) = mset (List.map_filter f ks')"
  unfolding List.map_filter_def by (metis mset_filter mset_map)

lemma map_filter_map_of_keys:
  "distinct (map fst d) \<Longrightarrow>
   List.map_filter (map_of d) (filter Q (map fst d)) = map snd (filter (\<lambda>(k, m). Q k) d)"
proof -
  assume dist: "distinct (map fst d)"
  have "\<And>xs. set xs \<subseteq> set d \<Longrightarrow>
      List.map_filter (map_of d) (filter Q (map fst xs)) = map snd (filter (\<lambda>(k, m). Q k) xs)"
  proof -
    fix xs show "set xs \<subseteq> set d \<Longrightarrow>
      List.map_filter (map_of d) (filter Q (map fst xs)) = map snd (filter (\<lambda>(k, m). Q k) xs)"
      using dist by (induction xs) (auto simp: List.map_filter_simps)
  qed
  then show ?thesis by simp
qed

lemma analyze_matched_fields:
  "classify_matched (keys_iter it (matched_keys rs js)) (match_map rs) = (matched_skills (analyze it rs js), weak_matches (analyze it rs js))"
  by (simp add: analyze_def Let_def split: prod.splits)

lemma common_matches_eq:
  "common_matches rs js = List.map_filter (map_of (match_map rs)) (matched_keys rs js)"
  unfolding common_matches_def matched_keys_def resume_keys_def
  by (simp add: map_filter_map_of_keys[OF distinct_match_map])

lemma lookup_iter:
  assumes "valid_iteration it"
  shows "mset (List.map_filter f (keys_iter it ks)) = mset (List.map_filter f ks)"
  using assms unfolding valid_iteration_def by (intro mset_map_filter_cong) simp

lemma matched_skills_mset:
  assumes "valid_iteration it"
  shows "mset (matched_skills (analyze it rs js)) =
         filter_mset (\<lambda>m. double (9/10) \<le> confidence m) (mset (common_matches rs js))"
proof -
  have "matched_skills (analyze it rs js) =
        filter (\<lambda>m. double (9/10) \<le> confidence m)
          (List.map_filter (map_of (match_map rs)) (keys_iter it (matched_keys rs js)))"
    using analyze_matched_fields[of it rs js] by (simp add: classify_matched_eq)
  then show ?thesis
    by (simp add: lookup_iter[OF assms] common_matches_eq)
qed

lemma weak_matches_mset:
  assumes "valid_iteration it"
  shows "mset (weak_matches (analyze it rs js)) =
         filter_mset (\<lambda>m. confidence m < double (9/10)) (mset (common_matches rs js))"
proof -
  have "weak_matches (analyze it rs js) =
        filter (\<lambda>m. \<not> double (9/10) \<le> confidence m)
          (List.map_filter (map_of (match_map rs)) (keys_iter it (matched_keys rs js)))"
    using analyze_matched_fields[of it rs js] by (simp add: classify_matched_eq)
  then show ?thesis
    by (simp add: lookup_iter[OF assms] common_matches_eq not_le)
qed

lemma overall_score_eq:
  "overall_score (analyze it rs js) =
     compute_overall_score (matched_skills (analyze it rs js)) (weak_matches (analyze it rs js)) (jd_keys js)"
  by (simp add: analyze_def Let_def split: prod.splits)

lemma analyze_empty_jd:
  assumes "valid_iteration it"
  shows "analyze it rs [] =
     \<lparr>overall_score = 0, confidence_score = 0, matched_skills = [], missing_skills = [],
      weak_matches = [], category_analysis = [], recommendations = []\<rparr>"
proof -
  have k: "jd_keys [] = []" "matched_keys rs [] = []" "missing_keys rs [] = []" "match_map [] = []"
    by (simp_all add: jd_keys_def matched_keys_def missing_keys_def match_map_def)
  show ?thesis
    by (simp add: analyze_def k valid_iteration_Nil[OF assms] analyze_missing_def
        analyze_categories_def generate_recommendations_def compute_overall_score_def
        compute_confidence_score_def)
qed


lemma missing_gaps_eq: "missing_gaps ks d = map gap_of (List.map_filter (map_of d) ks)"
  by (induction ks) (auto simp: List.map_filter_simps gap_of_def Let_def split: option.splits)

lemma missing_skills_eq:
  "missing_skills (analyze it rs js) =
     analyze_missing (keys_iter it (missing_keys rs js)) (match_map js)"
  by (simp add: analyze_def Let_def split: prod.splits)

lemma missing_matches_eq:
  "missing_matches rs js = List.map_filter (map_of (match_map js)) (missing_keys rs js)"
  unfolding missing_matches_def missing_keys_def jd_keys_def
  by (simp add: map_filter_map_of_keys[OF distinct_match_map])

lemma missing_skills_mset:
  assumes "valid_iteration it"
  shows "mset (missing_skills (analyze it rs js)) = image_mset gap_of (mset (missing_matches rs js))"
proof -
  have "mset (missing_skills (analyze it rs js)) =
        image_mset gap_of (mset (List.map_filter (map_of (match_map js)) (keys_iter it (missing_keys rs js))))"
    by (simp add: missing_skills_eq analyze_missing_def missing_gaps_eq)
  then show ?thesis
    by (simp add: lookup_iter[OF assms] missing_matches_eq)
qed

lemma missing_skills_sorted:
  "sorted_wrt (\<lambda>g h. impact_score h \<le> impact_score g) (missing_skills (analyze it rs js))"
proof -
  have "sorted (map (\<lambda>g. - impact_score g) (missing_skills (analyze it rs js)))"
    by (simp add: missing_skills_eq analyze_missing_def)
  then show ?thesis by (simp add: sorted_map)
qed

lemma missing_skills_gap:
  assumes "valid_iteration it" "g \<in> set (missing_skills (analyze it rs js))"
  shows "g = gap_of (skill_match g)" "skill_match g \<in> set (missing_matches rs js)"
proof -
  have "g \<in># image_mset gap_of (mset (missing_matches rs js))"
    using assms missing_skills_mset[OF assms(1), of rs js] by (metis set_mset_mset)
  then obtain m where m: "m \<in> set (missing_matches rs js)" "g = gap_of m" by auto
  then show "g = gap_of (skill_match g)" "skill_match g \<in> set (missing_matches rs js)"
    by (simp_all add: gap_of_def)
qed

lemma keys_iter_single: "valid_iteration it \<Longrightarrow> keys_iter it [k] = [k]"
  unfolding valid_iteration_def by (metis mset.simps(1) mset.simps(2) mset_single_iff_right)

lemma lower_Python: "lower ''Python'' = ''python''"
  by (simp add: lower_def char_tables)

lemma lower_Docker: "lower ''Docker'' = ''docker''"
  by (simp add: lower_def char_tables)

lemma example_report:
  fixes t1 c1 t2 c2 :: string
  assumes "valid_iteration it"
  defines "py \<equiv> \<lparr>skill = Python, match_type = t1, confidence = 1, context_text = c1\<rparr>"
      and "dk \<equiv> \<lparr>skill = Docker, match_type = t2, confidence = 1, context_text = c2\<rparr>"
  shows "matched_skills (analyze it [py] [py, dk]) = [py]"
    and "weak_matches (analyze it [py] [py, dk]) = []"
    and "missing_skills (analyze it [py] [py, dk]) =
           [\<lparr>skill_match = dk, priority = HIGH, impact_score = double (6/10)\<rparr>]"
    and "overall_score (analyze it [py] [py, dk]) = 1/2"
proof -
  have keys: "match_key py = ''python''" "match_key dk = ''docker''"
    by (simp_all add: py_def dk_def match_key_def Python_def Docker_def make_Skill_def
        lower_Python lower_Docker)
  have maps: "match_map [py] = [(''python'', py)]"
    "match_map [py, dk] = [(''python'', py), (''docker'', dk)]"
    by (simp_all add: match_map_def keys)
  have ks: "jd_keys [py, dk] = [''python'', ''docker'']" "matched_keys [py] [py, dk] = [''python'']"
    "missing_keys [py] [py, dk] = [''docker'']"
    by (simp_all add: jd_keys_def resume_keys_def matched_keys_def missing_keys_def maps)
  have cls: "classify_matched [''python''] [(''python'', py)] = ([py], [])"
    by (simp add: py_def double_9_10)
  have imp: "compute_impact dk = double (3/5)"
    by (simp add: compute_impact_def dk_def Docker_def make_Skill_def impact_devops_1 double_3_5)
  have pri: "determine_priority (double (3/5)) = HIGH"
    by (simp add: determine_priority_def double_4_5 double_3_5)
  have mis: "analyze_missing [''docker''] [(''python'', py), (''docker'', dk)] =
             [\<lparr>skill_match = dk, priority = HIGH, impact_score = double (6/10)\<rparr>]"
    by (simp add: analyze_missing_def imp pri Let_def)
  have sc: "compute_overall_score [py] [] [''python'', ''docker''] = 1/2"
    by (simp add: compute_overall_score_def fdiv_def fadd_def fmul_def double_zero double_one double_half)
  show "matched_skills (analyze it [py] [py, dk]) = [py]"
    and "weak_matches (analyze it [py] [py, dk]) = []"
    using analyze_matched_fields[of it "[py]" "[py, dk]"]
    unfolding ks maps keys_iter_single[OF assms(1)] cls by simp_all
  then show "overall_score (analyze it [py] [py, dk]) = 1/2"
    by (simp add: overall_score_eq ks sc)
  show "missing_skills (analyze it [py] [py, dk]) =
           [\<lparr>skill_match = dk, priority = HIGH, impact_score = double (6/10)\<rparr>]"
    by (simp add: missing_skills_eq ks maps keys_iter_single[OF assms(1)] mis)
qed

lemma valid_listed_order: "valid_iteration listed_order"
  by (simp add: valid_iteration_def listed_order_def)


lemma missing_skills_each:
  assumes "valid_iteration it" "g \<in> set (missing_skills (analyze it rs js))"
  shows "skill_match g \<in> set (missing_matches rs js) \<and>
         impact_score g =
           min (fdiv (fmul (weight (skill (skill_match g)))
                           (CATEGORY_WEIGHTS (category (skill (skill_match g))))) (3/2)) 1 \<and>
         priority g =
           (if double (8/10) \<le> impact_score g then CRITICAL
            else if double (6/10) \<le> impact_score g then HIGH
            else if double (4/10) \<le> impact_score g then MEDIUM
            else LOW)"
proof -
  note g = missing_skills_gap[OF assms]
  have i: "impact_score g = compute_impact (skill_match g)"
    and p: "priority g = determine_priority (compute_impact (skill_match g))"
    using g(1) by (metis SkillGap.select_convs(3) gap_of_def, metis SkillGap.select_convs(2) gap_of_def)
  show ?thesis
    unfolding p unfolding i using g(2)
    by (simp only: compute_impact_def determine_priority_def Let_def)
qed

lemma missing_skills_matches:
  assumes "valid_iteration it"
  shows "mset (map skill_match (missing_skills (analyze it rs js))) = mset (missing_matches rs js)"
proof -
  have "skill_match \<circ> gap_of = id" by (rule ext) (simp add: gap_of_def)
  then have "image_mset skill_match (image_mset gap_of (mset (missing_matches rs js))) =
        mset (missing_matches rs js)"
    by (simp add: multiset.map_comp)
  then show ?thesis using missing_skills_mset[OF assms, of rs js] by (metis mset_map)
qed

text \<open>
  Claim C4. Every gap in the report's missing skills is the job description's match of a
  key the resume lacks; its impact is \<open>min((skillWeight * categoryWeight) / 1.5, 1.0)\<close> with
  the category weights Fundamentals 1.3, Languages 1.2, Frameworks, ML and Cloud 1.0,
  DevOps and Databases 0.9; its priority is Critical from impact 0.8, High from 0.6, Medium
  from 0.4 and Low below; the list is sorted by impact, descending. For the resume skills
  Python (confidence 1.0) and the job description skills Python and Docker (1.0 each),
  Docker is the one missing skill, with impact \<open>min(1.0 * 0.9 / 1.5, 1.0) = 0.6\<close> and
  priority High, and the overall score is 0.5.
\<close>

theorem missing_skill_impact:
  "valid_iteration it \<Longrightarrow>
     (\<forall>g \<in> set (missing_skills (analyze it resume_skills jd_skills)).
        skill_match g \<in> set (missing_matches resume_skills jd_skills) \<and>
        impact_score g =
          min (fdiv (fmul (weight (skill (skill_match g)))
                          (CATEGORY_WEIGHTS (category (skill (skill_match g))))) (3/2)) 1 \<and>
        priority g =
          (if double (8/10) \<le> impact_score g then CRITICAL
           else if double (6/10) \<le> impact_score g then HIGH
           else if double (4/10) \<le> impact_score g then MEDIUM
           else LOW)) \<and>
     mset (map skill_match (missing_skills (analyze it resume_skills jd_skills))) =
       mset (missing_matches resume_skills jd_skills) \<and>
     sorted_wrt (\<lambda>g h. impact_score h \<le> impact_score g)
       (missing_skills (analyze it resume_skills jd_skills)) \<and>
     CATEGORY_WEIGHTS FUNDAMENTALS = double (13/10) \<and>
     CATEGORY_WEIGHTS LANGUAGES = double (12/10) \<and>
     CATEGORY_WEIGHTS FRAMEWORKS = 1 \<and>
     CATEGORY_WEIGHTS MACHINE_LEARNING = 1 \<and>
     CATEGORY_WEIGHTS CLOUD = 1 \<and>
     CATEGORY_WEIGHTS DEVOPS = double (9/10) \<and>
     CATEGORY_WEIGHTS DATABASES = double (9/10) \<and>
     missing_skills
       (analyze it [\<lparr>skill = Python, match_type = t1, confidence = 1, context_text = c1\<rparr>]
                   [\<lparr>skill = Python, match_type = t1, confidence = 1, context_text = c1\<rparr>,
                    \<lparr>skill = Docker, match_type = t2, confidence = 1, context_text = c2\<rparr>]) =
       [\<lparr>skill_match = \<lparr>skill = Docker, match_type = t2, confidence = 1, context_text = c2\<rparr>,
         priority = HIGH,
         impact_score = min (fdiv (fmul 1 (double (9/10))) (3/2)) 1\<rparr>] \<and>
     min (fdiv (fmul 1 (double (9/10))) (3/2)) 1 = double (6/10) \<and>
     overall_score
       (analyze it [\<lparr>skill = Python, match_type = t1, confidence = 1, context_text = c1\<rparr>]
                   [\<lparr>skill = Python, match_type = t1, confidence = 1, context_text = c1\<rparr>,
                    \<lparr>skill = Docker, match_type = t2, confidence = 1, context_text = c2\<rparr>]) = 1/2"
proof -
  assume v: "valid_iteration it"
  have m: "min (fdiv (fmul 1 (double (9/10))) (3/2)) 1 = double (6/10)"
    unfolding impact_devops_1 by (simp add: double_3_5)
  show ?thesis
    unfolding m
    apply (intro conjI ballI)
    subgoal for g using missing_skills_each[OF v, of g resume_skills jd_skills] by blast
    subgoal for g using missing_skills_each[OF v, of g resume_skills jd_skills] by blast
    subgoal for g using missing_skills_each[OF v, of g resume_skills jd_skills] by blast
    subgoal by (rule missing_skills_matches[OF v])
    subgoal by (rule missing_skills_sorted)
    subgoal by simp
    subgoal by simp
    subgoal by simp
    subgoal by simp
    subgoal by simp
    subgoal by simp
    subgoal by simp
    subgoal by (rule example_report(3)[OF v])
    subgoal by (rule refl)
    subgoal by (rule example_report(4)[OF v])
    done
qed

theorem missing_skill_impact_witness:
  "valid_iteration listed_order \<and>
   \<lparr>skill_match = \<lparr>skill = Docker, match_type = ''exact'', confidence = 1, context_text = ''docker''\<rparr>,
     priority = HIGH, impact_score = double (6/10)\<rparr>
   \<in> set (missing_skills
       (analyze listed_order
          [\<lparr>skill = Python, match_type = ''exact'', confidence = 1, context_text = ''python''\<rparr>]
          [\<lparr>skill = Python, match_type = ''exact'', confidence = 1, context_text = ''python''\<rparr>,
           \<lparr>skill = Docker, match_type = ''exact'', confidence = 1, context_text = ''docker''\<rparr>])) \<and>
   double (6/10) = min (fdiv (fmul (weight Docker) (CATEGORY_WEIGHTS (category Docker))) (3/2)) 1 \<and>
   double (6/10) < double (8/10)"
proof -
  let ?py = "\<lparr>skill = Python, match_type = ''exact'', confidence = 1, context_text = ''python''\<rparr>"
  let ?dk = "\<lparr>skill = Docker, match_type = ''exact'', confidence = 1, context_text = ''docker''\<rparr>"
  let ?g = "\<lparr>skill_match = ?dk, priority = HIGH, impact_score = double (6/10)\<rparr>"
  note v = valid_listed_order
  note t = missing_skill_impact[OF v, of "[?py]" "[?py, ?dk]" "''exact''" "''python''" "''exact''"
      "''docker''"]
  have m: "missing_skills (analyze listed_order [?py] [?py, ?dk]) = [?g]"
    using t by simp
  then have g: "?g \<in> set (missing_skills (analyze listed_order [?py] [?py, ?dk]))"
    by simp
  have "impact_score ?g =
        min (fdiv (fmul (weight (skill (skill_match ?g)))
                        (CATEGORY_WEIGHTS (category (skill (skill_match ?g))))) (3/2)) 1"
    using t g by blast
  then have i: "double (6/10) = min (fdiv (fmul (weight Docker) (CATEGORY_WEIGHTS (category Docker))) (3/2)) 1"
    by simp
  have l: "double (6/10) < double (8/10)"
    by (simp add: double_3_5 double_4_5)
  show ?thesis using v g i l by blast
qed

text \<open>
  Claim C5. The overall score is \<open>(strongCount + 0.5 * weakCount) / |jdKeys|\<close>, where the
  strong matches are the resume's matches of the keys both sides have whose confidence is
  at least 0.9, and the weak ones those below 0.9. When the job description has no skills
  the overall score is 0.0, the missing skills are empty, and the report is the empty
  report.
\<close>

theorem overall_score_formula:
  "valid_iteration it \<Longrightarrow>
     overall_score (analyze it resume_skills jd_skills) =
       (if jd_keys jd_skills = [] then 0
        else fdiv (fadd (of_nat (length (matched_skills (analyze it resume_skills jd_skills))))
                        (fmul (1/2) (of_nat (length (weak_matches (analyze it resume_skills jd_skills))))))
                  (of_nat (length (jd_keys jd_skills)))) \<and>
     mset (matched_skills (analyze it resume_skills jd_skills)) =
       filter_mset (\<lambda>m. double (9/10) \<le> confidence m) (mset (common_matches resume_skills jd_skills)) \<and>
     mset (weak_matches (analyze it resume_skills jd_skills)) =
       filter_mset (\<lambda>m. confidence m < double (9/10)) (mset (common_matches resume_skills jd_skills)) \<and>
     distinct (jd_keys jd_skills) \<and> set (jd_keys jd_skills) = match_key ` set jd_skills \<and>
     analyze it resume_skills [] =
       \<lparr>overall_score = 0, confidence_score = 0, matched_skills = [], missing_skills = [],
        weak_matches = [], category_analysis = [], recommendations = []\<rparr>"
proof -
  assume v: "valid_iteration it"
  show ?thesis
    apply (intro conjI)
    subgoal by (simp add: overall_score_eq compute_overall_score_def)
    subgoal by (rule matched_skills_mset[OF v])
    subgoal by (rule weak_matches_mset[OF v])
    subgoal using distinct_match_map[of jd_skills] by (simp add: jd_keys_def)
    subgoal using keys_match_map[of jd_skills] by (simp add: jd_keys_def)
    subgoal by (rule analyze_empty_jd[OF v])
    done
qed

theorem overall_score_formula_witness:
  "valid_iteration listed_order \<and>
   overall_score
     (analyze listed_order
        [\<lparr>skill = Python, match_type = ''exact'', confidence = 1, context_text = ''python''\<rparr>]
        [\<lparr>skill = Python, match_type = ''exact'', confidence = 1, context_text = ''python''\<rparr>,
         \<lparr>skill = Docker, match_type = ''exact'', confidence = 1, context_text = ''docker''\<rparr>]) =
     fdiv (fadd 1 (fmul (1/2) 0)) 2 \<and>
   fdiv (fadd 1 (fmul (1/2) 0)) 2 = 1/2"
proof -
  let ?py = "\<lparr>skill = Python, match_type = ''exact'', confidence = 1, context_text = ''python''\<rparr>"
  let ?dk = "\<lparr>skill = Docker, match_type = ''exact'', confidence = 1, context_text = ''docker''\<rparr>"
  note v = valid_listed_order
  have n: "length (jd_keys [?py, ?dk]) = 2"
    by (simp add: jd_keys_def match_map_def match_key_def Python_def Docker_def make_Skill_def
        lower_Python lower_Docker)
  then have ne: "jd_keys [?py, ?dk] \<noteq> []" by auto
  have f: "fdiv (fadd 1 (fmul (1/2) 0)) 2 = 1/2"
    by (simp add: fdiv_def fadd_def fmul_def double_zero double_one double_half)
  have "overall_score (analyze listed_order [?py] [?py, ?dk]) = fdiv (fadd 1 (fmul (1/2) 0)) 2"
    using overall_score_formula[OF v, of "[?py]" "[?py, ?dk]"]
    unfolding example_report(1,2)[OF v] n
    by (simp add: ne)
  then show ?thesis using v f by blast
qed

subsection \<open>Text normalisation\<close>

lemma re_sub_no_match: "\<not> re_search m prev s \<Longrightarrow> re_sub m repl prev s = s"
  by (induction s arbitrary: prev) auto

lemma re_findall_no_match: "\<not> re_search m prev s \<Longrightarrow> re_findall m prev s = []"
  by (induction s arbitrary: prev) auto

lemma set_re_sub: "set (re_sub m repl prev s) \<subseteq> set s \<union> set repl"
proof (induction m repl prev s rule: re_sub.induct)
  case (1 m repl prev)
  then show ?case by simp
next
  case (2 m repl prev c cs)
  show ?case
  proof (cases "m prev (c # cs)")
    case None
    then show ?thesis using 2(1) by auto
  next
    case (Some n)
    show ?thesis
    proof (cases "n = 0")
      case True
      then show ?thesis using Some 2(2) by auto
    next
      case False
      have "set (drop n (c # cs)) \<subseteq> set (c # cs)" by (rule set_drop_subset)
      then show ?thesis using Some False 2(3)[OF Some False] by auto
    qed
  qed
qed

lemma lower_char_idem: "lower_char (lower_char c) = lower_char c"
  by (simp add: lower_char_def)

lemma lower_take: "lower s = s \<Longrightarrow> lower (take n s) = take n s"
  by (metis lower_def take_map)

lemma lower_drop: "lower s = s \<Longrightarrow> lower (drop n s) = drop n s"
  by (metis lower_def drop_map)

lemma re_sub_literal_lower:
  "lower s = s \<Longrightarrow> re_sub (literal_match lit) (lower lit) prev s = s"
proof (induction "literal_match lit" "lower lit" prev s rule: re_sub.induct)
  case (1 prev)
  then show ?case by simp
next
  case (2 prev c cs)
  show ?case
  proof (cases "literal_match lit prev (c # cs)")
    case None
    have "lower cs = cs" using 2(4) by (simp add: lower_def)
    then show ?thesis using None 2(1) by simp
  next
    case (Some n)
    show ?thesis
    proof (cases "n = 0")
      case True
      have "lower cs = cs" using 2(4) by (simp add: lower_def)
      then show ?thesis using Some True 2(2) by simp
    next
      case False
      have n: "lower (take n (c # cs)) = lower lit"
        using Some by (auto simp: literal_match_def Let_def split: if_splits)
      have "lower (take n (c # cs)) = take n (c # cs)" using 2(4) by (rule lower_take)
      then have t: "take n (c # cs) = lower lit" using n by simp
      have "re_sub (literal_match lit) (lower lit) (Some ((c # cs) ! (n - 1))) (drop n (c # cs)) =
            drop n (c # cs)"
        using 2(3)[OF Some False] lower_drop[OF 2(4)] by simp
      then have "re_sub (literal_match lit) (lower lit) prev (c # cs) = take n (c # cs) @ drop n (c # cs)"
        using Some False t by simp
      then show ?thesis by (simp only: append_take_drop_id)
    qed
  qed
qed

lemma lower_idem: "lower (lower s) = lower s"
  by (simp add: lower_def lower_char_idem)

lemma reinforce_lower: "lower s = s \<Longrightarrow> reinforce s lit = s"
proof -
  assume l: "lower s = s"
  have "\<And>fs. foldl (\<lambda>t found. re_sub (literal_match (lower found)) (lower found) None t) s fs = s"
  proof -
    fix fs
    show "foldl (\<lambda>t found. re_sub (literal_match (lower found)) (lower found) None t) s fs = s"
    proof (induction fs)
      case Nil
      then show ?case by simp
    next
      case (Cons f fs)
      have "re_sub (literal_match (lower f)) (lower f) None s = s"
        using re_sub_literal_lower[OF l, of "lower f" None] by (simp add: lower_idem)
      then show ?case using Cons by simp
    qed
  qed
  then show ?thesis by (simp add: reinforce_def)
qed

lemma reinforce_all_lower: "lower s = s \<Longrightarrow> foldl reinforce s lits = s"
  by (induction lits) (simp_all add: reinforce_lower)

lemma email_no_at: "CHR ''@'' \<notin> set s \<Longrightarrow> \<not> re_search email_match prev s"
proof (induction s arbitrary: prev)
  case Nil
  then show ?case by simp
next
  case (Cons c cs)
  have "CHR ''@'' \<notin> set (butlast (tl (takeWhile (\<lambda>c. \<not> is_space c) (c # cs))))"
  proof
    assume "CHR ''@'' \<in> set (butlast (tl (takeWhile (\<lambda>c. \<not> is_space c) (c # cs))))"
    then have "CHR ''@'' \<in> set (tl (takeWhile (\<lambda>c. \<not> is_space c) (c # cs)))"
      by (rule in_set_butlastD)
    then have "CHR ''@'' \<in> set (takeWhile (\<lambda>c. \<not> is_space c) (c # cs))"
      by (cases "takeWhile (\<lambda>c. \<not> is_space c) (c # cs)") auto
    then have "CHR ''@'' \<in> set (c # cs)" by (rule set_takeWhileD[THEN conjunct1])
    then show False using Cons.prems by simp
  qed
  then have "email_match prev (c # cs) = None"
    by (simp add: email_match_def Let_def)
  then show ?case using Cons by simp
qed

lemma collapse_head:
  "collapse s = d # ds \<Longrightarrow> s \<noteq> [] \<and> (is_space d \<longleftrightarrow> is_space (hd s))"
  by (cases s) (auto simp: is_space_def split: if_splits)

lemma spaced_collapse: "spaced (collapse s)"
proof (induction s rule: collapse.induct)
  case 1
  then show ?case by simp
next
  case (2 c cs)
  show ?case
  proof (cases "is_space c")
    case True
    show ?thesis
    proof (cases "collapse (dropWhile is_space cs)")
      case Nil
      then show ?thesis using True by simp
    next
      case (Cons d ds)
      then have "dropWhile is_space cs \<noteq> []" "is_space d \<longleftrightarrow> is_space (hd (dropWhile is_space cs))"
        using collapse_head[OF Cons] by auto
      then have "\<not> is_space d" using hd_dropWhile by blast
      then show ?thesis using True Cons 2(1) by simp
    qed
  next
    case False
    show ?thesis
    proof (cases "collapse cs")
      case Nil
      then show ?thesis using False by simp
    next
      case (Cons d ds)
      then show ?thesis using False 2(2) by simp
    qed
  qed
qed

lemma set_collapse:
  "x \<in> set (collapse s) \<Longrightarrow> x = CHR '' '' \<or> (x \<in> set s \<and> \<not> is_space x)"
proof (induction s rule: collapse.induct)
  case 1
  then show ?case by simp
next
  case (2 c cs)
  show ?case
  proof (cases "is_space c")
    case True
    then have "x = CHR '' '' \<or> x \<in> set (collapse (dropWhile is_space cs))" using 2(3) by auto
    then show ?thesis using 2(1)[OF True] by (auto dest: set_dropWhileD)
  next
    case False
    then have "x = c \<or> x \<in> set (collapse cs)" using 2(3) by auto
    then show ?thesis using 2(2)[OF False] False by auto
  qed
qed

lemma collapse_fix:
  "\<forall>c \<in> set s. is_space c \<longrightarrow> c = CHR '' '' \<Longrightarrow> spaced s \<Longrightarrow> collapse s = s"
proof (induction s rule: spaced.induct)
  case 1
  then show ?case by simp
next
  case (2 c)
  then show ?case by simp
next
  case (3 c d cs)
  show ?case
  proof (cases "is_space c")
    case True
    then have "\<not> is_space d" "c = CHR '' ''" using 3(2,3) by auto
    then show ?thesis using True 3 by simp
  next
    case False
    then show ?thesis using 3 by simp
  qed
qed

lemma spaced_append: "spaced (xs @ ys) \<Longrightarrow> spaced xs \<and> spaced ys"
proof (induction xs rule: spaced.induct)
  case 1
  then show ?case by simp
next
  case (2 c)
  then show ?case by (cases ys) auto
next
  case (3 c d cs)
  then show ?case by auto
qed

lemma strip_infix:
  "s = takeWhile is_space s @ strip s @ rev (takeWhile is_space (rev (dropWhile is_space s)))"
proof -
  have "dropWhile is_space s =
        rev (dropWhile is_space (rev (dropWhile is_space s))) @
        rev (takeWhile is_space (rev (dropWhile is_space s)))"
    by (metis rev_append rev_rev_ident takeWhile_dropWhile_id)
  then show ?thesis by (metis strip_def takeWhile_dropWhile_id)
qed

lemma spaced_strip: "spaced s \<Longrightarrow> spaced (strip s)"
  using strip_infix[of s] spaced_append by metis

lemma set_strip: "set (strip s) \<subseteq> set s"
  using strip_infix[of s] by (metis Un_iff set_append subsetI)

lemma strip_idem: "strip (strip s) = strip s"
proof -
  let ?a = "dropWhile is_space s"
  let ?b = "rev (dropWhile is_space (rev ?a))"
  have b: "strip s = ?b" by (simp add: strip_def)
  have "dropWhile is_space ?b = ?b"
  proof (cases "?b = []")
    case True
    then show ?thesis by (metis dropWhile.simps(1))
  next
    case False
    then have ne: "dropWhile is_space (rev ?a) \<noteq> []" by simp
    then have "?a \<noteq> []" by (metis dropWhile.simps(1) rev_is_Nil_conv)
    then have h: "\<not> is_space (hd ?a)" by (rule hd_dropWhile)
    have "last (dropWhile is_space (rev ?a)) = last (rev ?a)"
      using ne by (metis last_appendR takeWhile_dropWhile_id)
    then have "hd ?b = hd ?a" using ne \<open>?a \<noteq> []\<close> by (simp add: hd_rev last_rev)
    then have "\<not> is_space (hd ?b)" using h by simp
    then show ?thesis using False by (cases ?b) auto
  qed
  then have "strip ?b = rev (dropWhile is_space (rev ?b))" by (simp add: strip_def)
  also have "\<dots> = ?b" by simp
  finally show ?thesis using b by simp
qed

lemma kept_ascii: "is_word_char c \<or> c \<in> set ''+#.-'' \<Longrightarrow> is_ascii c"
  unfolding is_word_char_def is_ascii_def by auto

lemma space_facts:
  "is_space (CHR '' '')" "keep_char (CHR '' '') = CHR '' ''" "lower_char (CHR '' '') = CHR '' ''"
  "is_ascii (CHR '' '')"
  by (simp_all add: keep_char_def is_ascii_def char_tables)

lemma keep_char_idem: "keep_char (keep_char c) = keep_char c"
  using space_facts(1) by (simp add: keep_char_def)

lemma keep_lower: "lower_char (keep_char (lower_char c)) = keep_char (lower_char c)"
  using space_facts(3) by (simp add: keep_char_def lower_char_idem)

lemma normal_ascii: "normal_char c \<Longrightarrow> is_ascii c"
proof -
  assume n: "normal_char c"
  show ?thesis
  proof (cases "c = CHR '' ''")
    case True
    then show ?thesis using space_facts(4) by simp
  next
    case False
    then have k: "\<not> is_space c" "keep_char c = c" using n by (simp_all add: normal_char_def)
    then have "is_word_char c \<or> c \<in> set ''+#.-''"
      using False by (auto simp: keep_char_def split: if_splits)
    then show ?thesis by (rule kept_ascii)
  qed
qed

lemma normal_lower: "normal_char c \<Longrightarrow> lower_char c = c"
  unfolding normal_char_def using space_facts(3) by metis

lemma normal_keep: "normal_char c \<Longrightarrow> keep_char c = c"
  unfolding normal_char_def using space_facts(2) by metis

lemma normal_space: "normal_char c \<Longrightarrow> is_space c \<Longrightarrow> c = CHR '' ''"
  unfolding normal_char_def by metis

lemma at_not_normal: "\<not> normal_char (CHR ''@'')"
  by (simp add: normal_char_def keep_char_def char_tables)

lemma process_eq:
  "process x = (if x = [] then []
                else strip (collapse (map keep_char (lower (strip_noise (filter is_ascii x))))))"
proof -
  let ?y = "strip (collapse (map keep_char (lower (strip_noise (filter is_ascii x)))))"
  have "\<forall>c \<in> set ?y. lower_char c = c"
  proof
    fix c assume "c \<in> set ?y"
    then have "c \<in> set (collapse (map keep_char (lower (strip_noise (filter is_ascii x)))))"
      using set_strip by blast
    then have "c = CHR '' '' \<or> c \<in> set (map keep_char (lower (strip_noise (filter is_ascii x))))"
      using set_collapse by blast
    then show "lower_char c = c"
      using space_facts(3) by (auto simp: lower_def keep_lower)
  qed
  then have "lower ?y = ?y" by (simp add: lower_def map_idI)
  then have "foldl reinforce ?y TECHNICAL_PATTERNS = ?y" by (rule reinforce_all_lower)
  then show ?thesis by (simp add: process_def strip_noise_def Let_def)
qed

lemma process_normal:
  "(\<forall>c \<in> set (process x). normal_char c) \<and> spaced (process x) \<and> strip (process x) = process x"
proof (cases "x = []")
  case True
  then show ?thesis by (simp add: process_eq strip_def)
next
  case False
  let ?z = "map keep_char (lower (strip_noise (filter is_ascii x)))"
  have p: "process x = strip (collapse ?z)" using False by (simp add: process_eq)
  have "\<forall>c \<in> set (strip (collapse ?z)). normal_char c"
  proof
    fix c assume "c \<in> set (strip (collapse ?z))"
    then have "c \<in> set (collapse ?z)" using set_strip by blast
    then have "c = CHR '' '' \<or> (c \<in> set ?z \<and> \<not> is_space c)" by (rule set_collapse)
    then show "normal_char c"
      by (auto simp: normal_char_def lower_def keep_lower keep_char_idem)
  qed
  moreover have "spaced (strip (collapse ?z))" by (rule spaced_strip[OF spaced_collapse])
  moreover have "strip (strip (collapse ?z)) = strip (collapse ?z)" by (rule strip_idem)
  ultimately show ?thesis using p by simp
qed

lemma normal_fix:
  assumes "\<forall>c \<in> set y. normal_char c" "spaced y" "strip y = y"
    "\<not> re_search url_match None y" "\<not> re_search phone_match None y"
  shows "process y = y"
proof (cases "y = []")
  case True
  then show ?thesis by (simp add: process_eq)
next
  case False
  have a: "filter is_ascii y = y" using assms(1) normal_ascii by (simp add: filter_id_conv)
  have "CHR ''@'' \<notin> set y" using assms(1) at_not_normal by blast
  then have e: "\<not> re_search email_match None y" by (rule email_no_at)
  have n: "strip_noise y = y"
    by (simp add: strip_noise_def re_sub_no_match[OF assms(4)] re_sub_no_match[OF e]
        re_sub_no_match[OF assms(5)])
  have l: "lower y = y"
    unfolding lower_def using assms(1) normal_lower by (intro map_idI) blast
  have k: "map keep_char y = y"
    using assms(1) normal_keep by (intro map_idI) blast
  have "\<forall>c \<in> set y. is_space c \<longrightarrow> c = CHR '' ''"
    using assms(1) normal_space by blast
  then have c: "collapse y = y" using assms(2) by (rule collapse_fix)
  show ?thesis using False by (simp add: process_eq a n l k c assms(3))
qed

lemma process_fixed:
  assumes "\<not> re_search url_match None (process x)" "\<not> re_search phone_match None (process x)"
  shows "process (process x) = process x"
  using process_normal[of x] assms by (intro normal_fix) blast+

lemmas process_eval = process_eq strip_noise_def url_match_def non_space_run_def email_match_def
  phone_match_def skip_opt_def digits_def is_sep_def is_ascii_def keep_char_def lower_def strip_def
  char_tables Let_def

lemma process_HTTPS: "process ''HTTPS'' = ''https''"
  by (simp add: process_eval)

lemma process_https: "process ''https'' = []"
  by (simp add: process_eval)

lemma process_golang_example:
  "process ''Experienced in Python and Golang'' = ''experienced in python and golang''"
  by (simp add: process_eval)

lemma golang_example_clean:
  "\<not> re_search url_match None ''experienced in python and golang''"
  "\<not> re_search phone_match None ''experienced in python and golang''"
  by (simp_all add: process_eval)

text \<open>
  Claim C7, as stated, fails: URLs are removed before the text is lowercased, so the
  normalised text \<open>https\<close> of \<open>HTTPS\<close> is itself removed as a URL by a second pass.
\<close>

theorem process_not_idempotent: "process (process ''HTTPS'') \<noteq> process ''HTTPS''"
  by (simp add: process_HTTPS process_https)

text \<open>
  Claim C7, amended. For ASCII text \<open>x\<close>, normalising \<open>process x\<close> again changes nothing
  provided \<open>process x\<close> contains no match of the URL pattern and no match of the phone
  number pattern.
\<close>

theorem process_idempotent_clean:
  "list_all is_ascii x \<Longrightarrow> \<not> re_search url_match None (process x) \<Longrightarrow>
   \<not> re_search phone_match None (process x) \<Longrightarrow> process (process x) = process x"
  by (rule process_fixed)

theorem process_idempotent_clean_witness:
  "list_all is_ascii ''Experienced in Python and Golang'' \<and>
   process ''Experienced in Python and Golang'' = ''experienced in python and golang'' \<and>
   \<not> re_search url_match None (process ''Experienced in Python and Golang'') \<and>
   \<not> re_search phone_match None (process ''Experienced in Python and Golang'') \<and>
   process (process ''Experienced in Python and Golang'') =
     process ''Experienced in Python and Golang''"
proof -
  have a: "list_all is_ascii ''Experienced in Python and Golang''"
    by (simp add: is_ascii_def)
  have u: "\<not> re_search url_match None (process ''Experienced in Python and Golang'')"
    and p: "\<not> re_search phone_match None (process ''Experienced in Python and Golang'')"
    unfolding process_golang_example by (rule golang_example_clean)+
  show ?thesis
    using process_idempotent_clean[OF a u p] a u p process_golang_example by simp
qed

subsection \<open>Skill extraction\<close>

lemma exact_loop_props:
  "exact_loop text ss seen = (ms, seen') \<Longrightarrow>
     seen' = seen \<union> match_key ` set ms \<and> distinct (map match_key ms) \<and>
     match_key ` set ms \<inter> seen = {} \<and>
     (\<forall>m \<in> set ms. skill m \<in> set ss \<and> match_type m = ''exact'' \<and> confidence m = 1 \<and>
                      exact_hit text (skill m)) \<and>
     (\<forall>s \<in> set ss. exact_hit text s \<longrightarrow> lower (name s) \<in> seen')"
proof (induction ss arbitrary: seen ms seen')
  case Nil
  then show ?case by simp
next
  case (Cons s ss)
  show ?case
  proof (cases "lower (name s) \<in> seen")
    case True
    then have "exact_loop text ss seen = (ms, seen')" using Cons.prems by simp
    from Cons.IH[OF this] True show ?thesis by auto
  next
    case False
    show ?thesis
    proof (cases "exact_found s (lower text)")
      case found: True
      obtain ms' where r: "exact_loop text ss (insert (lower (name s)) seen) = (ms', seen')"
        and ms: "ms = \<lparr>skill = s, match_type = ''exact'', confidence = 1,
                  context_text = extract_context text (name s)\<rparr> # ms'"
        using Cons.prems False found by (auto split: prod.splits)
      from Cons.IH[OF r] show ?thesis
        using False found by (auto simp: ms match_key_def exact_hit_def)
    next
      case nf: False
      then have "exact_loop text ss seen = (ms, seen')" using Cons.prems False by simp
      from Cons.IH[OF this] nf show ?thesis by (auto simp: exact_hit_def)
    qed
  qed
qed

lemma variant_loop_props:
  "variant_loop text ss seen = (ms, seen') \<Longrightarrow>
     seen' = seen \<union> match_key ` set ms \<and> distinct (map match_key ms) \<and>
     match_key ` set ms \<inter> seen = {} \<and>
     (\<forall>m \<in> set ms. skill m \<in> set ss \<and> match_type m = ''variant'' \<and>
                      confidence m = double (98/100) \<and> variant_hit text (skill m)) \<and>
     (\<forall>s \<in> set ss. variant_hit text s \<longrightarrow> lower (name s) \<in> seen')"
proof (induction ss arbitrary: seen ms seen')
  case Nil
  then show ?case by simp
next
  case (Cons s ss)
  show ?case
  proof (cases "lower (name s) \<in> seen")
    case True
    then have "variant_loop text ss seen = (ms, seen')" using Cons.prems by simp
    from Cons.IH[OF this] True show ?thesis by auto
  next
    case False
    show ?thesis
    proof (cases "List.find (variant_found s (lower text)) (variants s)")
      case (Some v)
      then have hit: "variant_hit text s"
        by (auto simp: variant_hit_def find_Some_iff)
      obtain ms' where r: "variant_loop text ss (insert (lower (name s)) seen) = (ms', seen')"
        and ms: "ms = \<lparr>skill = s, match_type = ''variant'', confidence = double (98/100),
                  context_text = extract_context text v\<rparr> # ms'"
        using Cons.prems False Some by (auto split: prod.splits)
      from Cons.IH[OF r] show ?thesis
        using False hit by (auto simp: ms match_key_def)
    next
      case None
      then have nh: "\<not> variant_hit text s"
        by (auto simp: variant_hit_def find_None_iff)
      have "variant_loop text ss seen = (ms, seen')" using Cons.prems False None by simp
      from Cons.IH[OF this] nh show ?thesis by auto
    qed
  qed
qed

lemma fuzzy_loop_props:
  "fuzzy_loop ratio text tokens ss seen = Inr (ms, seen') \<Longrightarrow>
     seen' = seen \<union> match_key ` set ms \<and> distinct (map match_key ms) \<and>
     match_key ` set ms \<inter> seen = {} \<and>
     (\<forall>m \<in> set ms. skill m \<in> set ss \<and> match_type m = ''fuzzy'' \<and> \<not> strict_match (skill m))"
proof (induction ss arbitrary: seen ms seen')
  case Nil
  then show ?case by simp
next
  case (Cons s ss)
  show ?case
  proof (cases "lower (name s) \<in> seen \<or> strict_match s")
    case True
    then have "fuzzy_loop ratio text tokens ss seen = Inr (ms, seen')" using Cons.prems by simp
    from Cons.IH[OF this] True show ?thesis by auto
  next
    case False
    show ?thesis
    proof (cases "candidate_loop ratio (lower (name s) # variants s) tokens")
      case (Inl e)
      then show ?thesis using Cons.prems False by simp
    next
      case (Inr hit)
      show ?thesis
      proof (cases hit)
        case None
        then have "fuzzy_loop ratio text tokens ss seen = Inr (ms, seen')"
          using Cons.prems False Inr by simp
        from Cons.IH[OF this] show ?thesis by auto
      next
        case (Some p)
        obtain token similarity where p: "p = (token, similarity)" by (cases p)
        obtain ms' where r: "fuzzy_loop ratio text tokens ss (insert (lower (name s)) seen) = Inr (ms', seen')"
          and ms: "ms = \<lparr>skill = s, match_type = ''fuzzy'', confidence = fdiv similarity 100,
                  context_text = extract_context text token\<rparr> # ms'"
          using Cons.prems False Inr Some p by (auto split: sum.splits)
        from Cons.IH[OF r] show ?thesis
          using False by (auto simp: ms match_key_def)
      qed
    qed
  qed
qed

lemma token_loop_total:
  "\<forall>t c. \<exists>v. ratio t c = Inr v \<Longrightarrow> \<exists>r. token_loop ratio candidate tokens = Inr r"
proof (induction tokens)
  case Nil
  then show ?case by simp
next
  case (Cons t ts)
  obtain v where "ratio t candidate = Inr v" using Cons.prems by blast
  then show ?case using Cons by auto
qed

lemma candidate_loop_total:
  "\<forall>t c. \<exists>v. ratio t c = Inr v \<Longrightarrow> \<exists>r. candidate_loop ratio candidates tokens = Inr r"
proof (induction candidates)
  case Nil
  then show ?case by simp
next
  case (Cons c cs)
  obtain r where "token_loop ratio c tokens = Inr r"
    using token_loop_total[of ratio c tokens] Cons.prems by blast
  then show ?case using Cons by (cases r) auto
qed

lemma fuzzy_loop_total:
  "\<forall>t c. \<exists>v. ratio t c = Inr v \<Longrightarrow> \<exists>r. fuzzy_loop ratio text tokens ss seen = Inr r"
proof (induction ss arbitrary: seen)
  case Nil
  then show ?case by simp
next
  case (Cons s ss)
  obtain r where r: "candidate_loop ratio (lower (name s) # variants s) tokens = Inr r"
    using candidate_loop_total[of ratio "lower (name s) # variants s" tokens] Cons.prems by blast
  obtain r1 where r1: "fuzzy_loop ratio text tokens ss seen = Inr r1"
    using Cons by blast
  obtain r2 where r2: "fuzzy_loop ratio text tokens ss (insert (lower (name s)) seen) = Inr r2"
    using Cons by blast
  show ?case
    using r r1 r2 by (cases r; cases r2) (auto split: prod.splits)
qed

lemma fuzzy_loop_raises:
  assumes "\<And>t c. ratio t c = Inl e" "tokens \<noteq> []"
    "\<exists>s \<in> set ss. lower (name s) \<notin> seen \<and> \<not> strict_match s"
  shows "fuzzy_loop ratio text tokens ss seen = Inl e"
  using assms(3)
proof (induction ss)
  case Nil
  then show ?case by simp
next
  case (Cons s ss)
  obtain t ts where t: "tokens = t # ts" using assms(2) by (cases tokens) auto
  have c: "candidate_loop ratio (lower (name s) # variants s) tokens = Inl e"
    by (simp add: t assms(1))
  show ?case
  proof (cases "lower (name s) \<in> seen \<or> strict_match s")
    case True
    then show ?thesis using Cons by auto
  next
    case False
    then show ?thesis using c by (simp del: candidate_loop.simps)
  qed
qed

lemma extract_skills_with_props:
  assumes "extract_skills_with ratio T text = Inr ms"
  shows "distinct (map match_key ms) \<and>
         (\<forall>m \<in> set ms. skill m \<in> set (get_all_skills T)) \<and>
         (\<forall>m \<in> set ms. exact_hit text (skill m) \<longrightarrow> match_type m = ''exact'') \<and>
         (\<forall>m \<in> set ms. \<not> exact_hit text (skill m) \<and> variant_hit text (skill m) \<longrightarrow>
            match_type m = ''variant'') \<and>
         (\<forall>m \<in> set ms. \<not> exact_hit text (skill m) \<and> \<not> variant_hit text (skill m) \<longrightarrow>
            match_type m = ''fuzzy'') \<and>
         (\<forall>s \<in> set (get_all_skills T). text \<noteq> [] \<and> (exact_hit text s \<or> variant_hit text s) \<longrightarrow>
            (\<exists>m \<in> set ms. match_key m = lower (name s))) \<and>
         (\<forall>m \<in> set ms. (match_type m = ''exact'' \<longrightarrow> confidence m = 1) \<and>
            (match_type m = ''variant'' \<longrightarrow> confidence m = double (98/100)) \<and>
            (match_type m = ''fuzzy'' \<longrightarrow> \<not> strict_match (skill m)))"
proof (cases "text = []")
  case True
  then have "ms = []" using assms by (simp add: extract_skills_with_def)
  then show ?thesis using True by simp
next
  case False
  let ?ss = "get_all_skills T"
  obtain m1 seen1 where e: "exact_loop text ?ss {} = (m1, seen1)" by (cases "exact_loop text ?ss {}")
  obtain m2 seen2 where v: "variant_loop text ?ss seen1 = (m2, seen2)"
    by (cases "variant_loop text ?ss seen1")
  obtain m3 seen3 where f: "fuzzy_loop ratio text (find_tokens None (lower text)) ?ss seen2 = Inr (m3, seen3)"
    and ms: "ms = sort_key (\<lambda>m. - confidence m) (m1 @ m2 @ m3)"
    using assms False e v
    by (auto simp: extract_skills_with_def ExactMatcher_find_matches_def
        VariantMatcher_find_matches_def FuzzyMatcher_find_matches_def split: sum.splits)
  note E = exact_loop_props[OF e] and V = variant_loop_props[OF v] and F = fuzzy_loop_props[OF f]
  have s1: "seen1 = match_key ` set m1" using E by simp
  have s2: "seen2 = match_key ` set m1 \<union> match_key ` set m2" using V s1 by simp
  have d: "distinct (map match_key (m1 @ m2 @ m3))"
    using E V F s1 s2 by auto
  have "mset (map match_key ms) = mset (map match_key (m1 @ m2 @ m3))"
    unfolding ms by (metis mset_map mset_sort)
  then have c1: "distinct (map match_key ms)" using d by (metis mset_eq_imp_distinct_iff)
  have set_ms: "set ms = set m1 \<union> set m2 \<union> set m3" unfolding ms by auto
  have c2: "\<forall>m \<in> set ms. skill m \<in> set (get_all_skills T)"
    using E V F set_ms by auto
  have in1: "\<And>s. s \<in> set ?ss \<Longrightarrow> exact_hit text s \<Longrightarrow> lower (name s) \<in> seen1"
    using E by blast
  have in2: "\<And>s. s \<in> set ?ss \<Longrightarrow> variant_hit text s \<Longrightarrow> lower (name s) \<in> seen2"
    using V by blast
  have sub: "seen1 \<subseteq> seen2" using V by blast
  have m2_not1: "\<And>m. m \<in> set m2 \<Longrightarrow> match_key m \<notin> seen1" using V by blast
  have m3_not2: "\<And>m. m \<in> set m3 \<Longrightarrow> match_key m \<notin> seen2" using F by blast
  have c3: "\<forall>m \<in> set ms. exact_hit text (skill m) \<longrightarrow> match_type m = ''exact''"
  proof (intro ballI impI)
    fix m assume m: "m \<in> set ms" and h: "exact_hit text (skill m)"
    have k: "skill m \<in> set ?ss" using c2 m by blast
    then have "match_key m \<in> seen1" using in1[OF k h] by (simp add: match_key_def)
    then have "m \<in> set m1" using m set_ms m2_not1 m3_not2 sub by blast
    then show "match_type m = ''exact''" using E by blast
  qed
  have c4: "\<forall>m \<in> set ms. \<not> exact_hit text (skill m) \<and> variant_hit text (skill m) \<longrightarrow>
         match_type m = ''variant''"
  proof (intro ballI impI)
    fix m assume m: "m \<in> set ms" and h: "\<not> exact_hit text (skill m) \<and> variant_hit text (skill m)"
    have k: "skill m \<in> set ?ss" using c2 m by blast
    have "match_key m \<in> seen2" using in2[OF k] h by (simp add: match_key_def)
    then have "m \<notin> set m3" using m3_not2 by blast
    moreover have "m \<notin> set m1" using E h by blast
    ultimately have "m \<in> set m2" using m set_ms by blast
    then show "match_type m = ''variant''" using V by blast
  qed
  have c5: "\<forall>m \<in> set ms. \<not> exact_hit text (skill m) \<and> \<not> variant_hit text (skill m) \<longrightarrow>
         match_type m = ''fuzzy''"
  proof (intro ballI impI)
    fix m assume m: "m \<in> set ms" and h: "\<not> exact_hit text (skill m) \<and> \<not> variant_hit text (skill m)"
    have "m \<notin> set m1" using E h by blast
    moreover have "m \<notin> set m2" using V h by blast
    ultimately have "m \<in> set m3" using m set_ms by blast
    then show "match_type m = ''fuzzy''" using F by blast
  qed
  have c6: "\<forall>s \<in> set ?ss. text \<noteq> [] \<and> (exact_hit text s \<or> variant_hit text s) \<longrightarrow>
            (\<exists>m \<in> set ms. match_key m = lower (name s))"
  proof (intro ballI impI)
    fix s assume s: "s \<in> set ?ss" and h: "text \<noteq> [] \<and> (exact_hit text s \<or> variant_hit text s)"
    have "lower (name s) \<in> seen2" using in1[OF s] in2[OF s] h sub by blast
    then show "\<exists>m \<in> set ms. match_key m = lower (name s)"
      unfolding s2 set_ms by auto
  qed
  have c7: "\<forall>m \<in> set ms. (match_type m = ''exact'' \<longrightarrow> confidence m = 1) \<and>
            (match_type m = ''variant'' \<longrightarrow> confidence m = double (98/100)) \<and>
            (match_type m = ''fuzzy'' \<longrightarrow> \<not> strict_match (skill m))"
  proof
    fix m assume m: "m \<in> set ms"
    then consider "m \<in> set m1" | "m \<in> set m2" | "m \<in> set m3" using set_ms by blast
    then show "(match_type m = ''exact'' \<longrightarrow> confidence m = 1) \<and>
            (match_type m = ''variant'' \<longrightarrow> confidence m = double (98/100)) \<and>
            (match_type m = ''fuzzy'' \<longrightarrow> \<not> strict_match (skill m))"
    proof cases
      case 1
      then have "match_type m = ''exact'' \<and> confidence m = 1" using E by blast
      then show ?thesis by simp
    next
      case 2
      then have "match_type m = ''variant'' \<and> confidence m = double (98/100)" using V by blast
      then show ?thesis by simp
    next
      case 3
      then have "match_type m = ''fuzzy'' \<and> \<not> strict_match (skill m)" using F by blast
      then show ?thesis by simp
    qed
  qed
  show ?thesis using c1 c2 c3 c4 c5 c6 c7 by blast
qed

lemma token_loop_error:
  "token_loop ratio candidate tokens = Inl e \<Longrightarrow> \<exists>t c. ratio t c = Inl e"
  by (induction tokens) (auto split: sum.splits if_splits)

lemma candidate_loop_error:
  "candidate_loop ratio candidates tokens = Inl e \<Longrightarrow> \<exists>t c. ratio t c = Inl e"
  by (induction candidates) (auto split: sum.splits option.splits dest: token_loop_error)

lemma fuzzy_loop_error:
  "fuzzy_loop ratio text tokens ss seen = Inl e \<Longrightarrow> \<exists>t c. ratio t c = Inl e"
proof (induction ss arbitrary: seen)
  case Nil
  then show ?case by simp
next
  case (Cons s ss)
  show ?case
  proof (cases "candidate_loop ratio (lower (name s) # variants s) tokens")
    case (Inl e')
    show ?thesis
    proof (cases "lower (name s) \<in> seen \<or> strict_match s")
      case True
      then show ?thesis using Cons by auto
    next
      case False
      then have "e' = e" using Cons.prems Inl by (simp del: candidate_loop.simps)
      then show ?thesis using candidate_loop_error[OF Inl] by blast
    qed
  next
    case (Inr hit)
    then show ?thesis using Cons
      by (auto simp del: candidate_loop.simps split: if_splits option.splits sum.splits prod.splits)
  qed
qed

lemma extract_skills_with_total:
  assumes "\<forall>t c. \<exists>v. ratio t c = Inr v"
  shows "\<exists>ms. extract_skills_with ratio T text = Inr ms"
proof -
  obtain r where "FuzzyMatcher_find_matches ratio text T
      (snd (VariantMatcher_find_matches text T (snd (ExactMatcher_find_matches text T {})))) = Inr r"
    unfolding FuzzyMatcher_find_matches_def using fuzzy_loop_total[OF assms] by blast
  then show ?thesis
    by (auto simp: extract_skills_with_def split: prod.splits)
qed

lemma extract_skills_with_error:
  assumes "extract_skills_with ratio T text = Inl e"
  shows "\<exists>t c. ratio t c = Inl e"
proof -
  have "FuzzyMatcher_find_matches ratio text T
      (snd (VariantMatcher_find_matches text T (snd (ExactMatcher_find_matches text T {})))) = Inl e"
    using assms by (auto simp: extract_skills_with_def split: prod.splits sum.splits if_splits)
  then show ?thesis
    unfolding FuzzyMatcher_find_matches_def by (rule fuzzy_loop_error)
qed

lemma extract_skills_with_propagates:
  assumes "text \<noteq> []" "FuzzyMatcher_find_matches ratio text T
      (snd (VariantMatcher_find_matches text T (snd (ExactMatcher_find_matches text T {})))) = Inl e"
  shows "extract_skills_with ratio T text = Inl e"
  using assms by (auto simp: extract_skills_with_def split: prod.splits)

lemma unseen_after_variant:
  assumes "distinct (map (\<lambda>s. lower (name s)) ss)" "s \<in> set ss"
    "\<not> exact_hit text s" "\<not> variant_hit text s"
    "exact_loop text ss {} = (m1, seen1)" "variant_loop text ss seen1 = (m2, seen2)"
  shows "lower (name s) \<notin> seen2"
proof
  assume a: "lower (name s) \<in> seen2"
  note E = exact_loop_props[OF assms(5)] and V = variant_loop_props[OF assms(6)]
  have "seen2 = match_key ` set m1 \<union> match_key ` set m2" using E V by simp
  then have "\<exists>m \<in> set m1 \<union> set m2. match_key m = lower (name s)" using a by auto
  then obtain m where m: "m \<in> set m1 \<union> set m2" "match_key m = lower (name s)" by blast
  then have k: "skill m \<in> set ss" and h: "exact_hit text (skill m) \<or> variant_hit text (skill m)"
    using E V by blast+
  have "skill m = s"
    using assms(1,2) k m(2) by (metis (mono_tags, lifting) distinct_map inj_onD match_key_def)
  then show False using h assms(3,4) by simp
qed

lemma extract_skills_with_raises:
  assumes "\<And>t c. ratio t c = Inl e" "text \<noteq> []" "find_tokens None (lower text) \<noteq> []"
    "distinct (map (\<lambda>s. lower (name s)) (get_all_skills T))" "s \<in> set (get_all_skills T)"
    "\<not> strict_match s" "\<not> exact_hit text s" "\<not> variant_hit text s"
  shows "extract_skills_with ratio T text = Inl e"
proof -
  let ?ss = "get_all_skills T"
  obtain m1 seen1 where e: "exact_loop text ?ss {} = (m1, seen1)" by (cases "exact_loop text ?ss {}")
  obtain m2 seen2 where v: "variant_loop text ?ss seen1 = (m2, seen2)"
    by (cases "variant_loop text ?ss seen1")
  have "lower (name s) \<notin> seen2"
    by (rule unseen_after_variant[OF assms(4,5,7,8) e v])
  then have "fuzzy_loop ratio text (find_tokens None (lower text)) ?ss seen2 = Inl e"
    using assms by (intro fuzzy_loop_raises) auto
  then show ?thesis
    using assms(2) e v
    by (simp add: extract_skills_with_def ExactMatcher_find_matches_def
        VariantMatcher_find_matches_def FuzzyMatcher_find_matches_def)
qed

lemma contains_iff: "contains sub text \<longleftrightarrow> (\<exists>xs ys. text = xs @ sub @ ys)"
proof -
  have "find_sub sub text \<noteq> None \<longleftrightarrow> (\<exists>xs ys. text = xs @ sub @ ys)"
  proof (induction "text")
    case Nil
    then show ?case by auto
  next
    case (Cons c cs)
    show ?case
    proof (cases "prefix sub (c # cs)")
      case True
      then obtain ys where "c # cs = sub @ ys" by (auto simp: prefix_def)
      then have "c # cs = [] @ sub @ ys" by simp
      then show ?thesis using True by (metis find_sub.simps(2) option.distinct(1))
    next
      case False
      have "(\<exists>xs ys. c # cs = xs @ sub @ ys) \<longleftrightarrow> (\<exists>xs ys. cs = xs @ sub @ ys)"
      proof
        assume "\<exists>xs ys. c # cs = xs @ sub @ ys"
        then obtain xs ys where e: "c # cs = xs @ sub @ ys" by blast
        show "\<exists>xs ys. cs = xs @ sub @ ys"
        proof (cases xs)
          case Nil
          then have "prefix sub (c # cs)" using e by (simp add: prefix_def)
          then show ?thesis using False by simp
        next
          case (Cons x xs')
          then show ?thesis using e by auto
        qed
      next
        assume "\<exists>xs ys. cs = xs @ sub @ ys"
        then obtain xs ys where "cs = xs @ sub @ ys" by blast
        then have "c # cs = (c # xs) @ sub @ ys" by simp
        then show "\<exists>xs ys. c # cs = xs @ sub @ ys" by blast
      qed
      then show ?thesis using False Cons.IH by simp
    qed
  qed
  then show ?thesis by (simp add: contains_def)
qed

lemma contains_part:
  "contains (a @ b) text \<Longrightarrow> contains a text"
  unfolding contains_iff by (metis append.assoc)

lemmas match_eval = skill_defs make_Skill_def lower_def strip_def char_tables exact_hit_def
  variant_hit_def exact_found_def variant_found_def contains_def bounded_at_def boundary_def

lemma Python_keys: "\<not> strict_match Python" "Python \<in> set skills_data" "lower (name Python) = ''python''"
  by (simp_all add: skills_data_def Python_def make_Skill_def lower_def char_tables)

lemma Java_keys: "\<not> strict_match Java" "Java \<in> set skills_data" "lower (name Java) = ''java''"
  by (simp_all add: skills_data_def Java_def make_Skill_def lower_def char_tables)

lemma hello_facts:
  "find_tokens None (lower ''hello'') \<noteq> []"
  "\<not> exact_hit ''hello'' Python" "\<not> variant_hit ''hello'' Python"
  by (simp_all add: match_eval token_at_def is_token_char_def)

lemma javascript_facts:
  "find_tokens None (lower ''javascript'') \<noteq> []"
  "\<not> exact_hit ''javascript'' Python" "\<not> variant_hit ''javascript'' Python"
  by (simp_all add: match_eval token_at_def is_token_char_def)

lemma golang_facts:
  "find_tokens None (lower ''experienced in python and golang'') \<noteq> []"
  "\<not> exact_hit ''experienced in python and golang'' Java"
  "\<not> variant_hit ''experienced in python and golang'' Java"
  "exact_hit ''experienced in python and golang'' Python"
  "\<not> exact_hit ''experienced in python and golang'' Go"
  "variant_hit ''experienced in python and golang'' Go"
  by (simp_all add: match_eval token_at_def is_token_char_def)

lemma distinct_new_taxonomy:
  "distinct (map (\<lambda>s. lower (name s)) (get_all_skills new_taxonomy))"
  unfolding all_skills_new_taxonomy by (rule distinct_skill_keys)

lemma module_raises:
  assumes "text \<noteq> []" "find_tokens None (lower text) \<noteq> []" "s \<in> set skills_data"
    "\<not> strict_match s" "\<not> exact_hit text s" "\<not> variant_hit text s"
  shows "extract_skills_with module_fuzz_ratio new_taxonomy text = Inl NameError"
proof (rule extract_skills_with_raises[OF _ assms(1,2) distinct_new_taxonomy _ assms(4,5,6)])
  show "\<And>t c. module_fuzz_ratio t c = Inl NameError" by (simp add: module_fuzz_ratio_def)
  show "s \<in> set (get_all_skills new_taxonomy)" unfolding all_skills_new_taxonomy by (rule assms(3))
qed

lemma hello_raises: "extract_skills_with module_fuzz_ratio new_taxonomy ''hello'' = Inl NameError"
  by (rule module_raises[OF _ hello_facts(1) Python_keys(2,1) hello_facts(2,3)]) simp

lemma javascript_raises:
  "extract_skills_with module_fuzz_ratio new_taxonomy ''javascript'' = Inl NameError"
  by (rule module_raises[OF _ javascript_facts(1) Python_keys(2,1) javascript_facts(2,3)]) simp

lemma golang_raises:
  "extract_skills_with module_fuzz_ratio new_taxonomy ''experienced in python and golang'' =
     Inl NameError"
  by (rule module_raises[OF _ golang_facts(1) Java_keys(2,1) golang_facts(2,3)]) simp

lemma skill_of_key:
  assumes "m \<in> set ms" "\<forall>m \<in> set ms. skill m \<in> set (get_all_skills new_taxonomy)"
    "match_key m = lower (name s)" "s \<in> set skills_data"
  shows "skill m = s"
proof -
  have "skill m \<in> set skills_data" using assms(1,2) by (simp add: all_skills_new_taxonomy)
  then show ?thesis
    using distinct_skill_keys assms(3,4)
    by (metis (mono_tags, lifting) distinct_map inj_onD match_key_def)
qed

lemma reported_exact:
  assumes "extract_skills_with ratio new_taxonomy text = Inr ms" "text \<noteq> []"
    "s \<in> set skills_data" "exact_hit text s"
  shows "\<exists>m \<in> set ms. skill m = s \<and> match_type m = ''exact'' \<and> confidence m = 1"
proof -
  note P = extract_skills_with_props[OF assms(1)]
  have "s \<in> set (get_all_skills new_taxonomy)" using assms(3) by (simp add: all_skills_new_taxonomy)
  then obtain m where m: "m \<in> set ms" "match_key m = lower (name s)"
    using P assms(2,4) by blast
  have s: "skill m = s" using skill_of_key[OF m(1) _ m(2) assms(3)] P by blast
  then have "match_type m = ''exact''" using P m(1) assms(4) by blast
  moreover from this have "confidence m = 1" using P m(1) by blast
  ultimately show ?thesis using m(1) s by blast
qed

lemma reported_variant:
  assumes "extract_skills_with ratio new_taxonomy text = Inr ms" "text \<noteq> []"
    "s \<in> set skills_data" "\<not> exact_hit text s" "variant_hit text s"
  shows "\<exists>m \<in> set ms. skill m = s \<and> match_type m = ''variant'' \<and> confidence m = double (98/100)"
proof -
  note P = extract_skills_with_props[OF assms(1)]
  have "s \<in> set (get_all_skills new_taxonomy)" using assms(3) by (simp add: all_skills_new_taxonomy)
  then obtain m where m: "m \<in> set ms" "match_key m = lower (name s)"
    using P assms(2,5) by blast
  have s: "skill m = s" using skill_of_key[OF m(1) _ m(2) assms(3)] P by blast
  then have "match_type m = ''variant''" using P m(1) assms(4,5) by blast
  moreover from this have "confidence m = double (98/100)" using P m(1) by blast
  ultimately show ?thesis using m(1) s by blast
qed

text \<open>What the cascade reports for the two example texts whenever the ratio calls succeed.\<close>

lemma golang_example_design:
  assumes "extract_skills_with ratio new_taxonomy ''experienced in python and golang'' = Inr ms"
  shows "(\<exists>m \<in> set ms. skill m = Python \<and> match_type m = ''exact'' \<and> confidence m = 1) \<and>
         (\<exists>m \<in> set ms. skill m = Go \<and> match_type m = ''variant'' \<and> confidence m = double (98/100)) \<and>
         \<not> (\<exists>m \<in> set ms. skill m = Go \<and> match_type m = ''fuzzy'')"
proof -
  have g: "Go \<in> set skills_data" "strict_match Go"
    by (simp_all add: skills_data_def Go_def make_Skill_def)
  have "\<not> (\<exists>m \<in> set ms. skill m = Go \<and> match_type m = ''fuzzy'')"
    using extract_skills_with_props[OF assms] g(2) by auto
  then show ?thesis
    using reported_exact[OF assms _ Python_keys(2) golang_facts(4)]
      reported_variant[OF assms _ g(1) golang_facts(5,6)]
    by simp
qed

lemma javascript_design:
  assumes "extract_skills_with ratio new_taxonomy text' = Inr ms" "contains ''javascript'' (lower text')"
  shows "(\<exists>m \<in> set ms. skill m = Java \<and> match_type m = ''exact'' \<and> confidence m = 1) \<and>
         (\<exists>m \<in> set ms. skill m = JavaScript \<and> match_type m = ''exact'' \<and> confidence m = 1)"
proof -
  have ne: "text' \<noteq> []" using assms(2) by (auto simp: contains_def lower_def)
  have "contains (''java'' @ ''script'') (lower text')" using assms(2) by simp
  then have j: "contains ''java'' (lower text')" by (rule contains_part)
  have js: "JavaScript \<in> set skills_data" by (simp add: skills_data_def)
  have h1: "exact_hit text' Java"
    using j by (simp add: exact_hit_def exact_found_def Java_def make_Skill_def lower_def char_tables)
  have h2: "exact_hit text' JavaScript"
    using assms(2)
    by (simp add: exact_hit_def exact_found_def JavaScript_def make_Skill_def lower_def char_tables)
  show ?thesis
    using reported_exact[OF assms(1) ne Java_keys(2) h1] reported_exact[OF assms(1) ne js h2]
    by simp
qed

lemma git_result:
  "extract_skills_with module_fuzz_ratio new_taxonomy ''git'' =
     Inr [\<lparr>skill = Git, match_type = ''exact'', confidence = 1, context_text = ''git''\<rparr>]"
proof -
  have l: "lower ''git'' = ''git''" by (simp add: lower_def char_tables)
  have t: "find_tokens None ''git'' = []"
    by (simp add: token_at_def boundary_def is_token_char_def char_tables)
  have e: "exact_loop ''git'' skills_data {} =
     ([\<lparr>skill = Git, match_type = ''exact'', confidence = 1, context_text = ''git''\<rparr>], {''git''})"
    unfolding skills_data_def
    by (simp add: skill_defs make_Skill_def lower_def strip_def char_tables exact_found_def
        contains_def bounded_at_def boundary_def extract_context_def)
  have v: "variant_loop ''git'' skills_data {''git''} = ([], {''git''})"
    unfolding skills_data_def
    by (simp add: skill_defs make_Skill_def lower_def strip_def char_tables variant_found_def
        contains_def bounded_at_def boundary_def)
  have f: "\<And>ss seen. fuzzy_loop module_fuzz_ratio ''git'' [] ss seen = Inr ([], seen)"
  proof -
    fix ss seen
    have c: "\<And>cs. candidate_loop module_fuzz_ratio cs [] = Inr None"
    proof -
      fix cs show "candidate_loop module_fuzz_ratio cs [] = Inr None" by (induction cs) auto
    qed
    show "fuzzy_loop module_fuzz_ratio ''git'' [] ss seen = Inr ([], seen)"
      by (induction ss arbitrary: seen) (simp_all add: c del: candidate_loop.simps)
  qed
  show ?thesis
    by (simp add: extract_skills_with_def ExactMatcher_find_matches_def
        VariantMatcher_find_matches_def FuzzyMatcher_find_matches_def all_skills_new_taxonomy
        l t e v f del: find_tokens.simps)
qed

lemma extract_skills_with_error_iff:
  "extract_skills_with ratio T text = Inl e \<longleftrightarrow>
     text \<noteq> [] \<and>
     FuzzyMatcher_find_matches ratio text T
       (snd (VariantMatcher_find_matches text T (snd (ExactMatcher_find_matches text T {})))) = Inl e"
  by (auto simp: extract_skills_with_def split: prod.splits sum.splits)

text \<open>
  Claim C6. The list that \<open>extract_skills\<close> returns has at most one entry per canonical skill
  name (indeed per lowercased name), and the cascade gives priority to the earlier strategy:
  a reported skill that the exact strategy matches is reported as an exact match, one that
  only the variant strategy matches as a variant match, and every skill that either of
  them matches is reported. This holds whatever the ratio calls yield, so also for
  \<open>extract_skills\<close> itself.
\<close>

theorem extract_skills_reports_once:
  "extract_skills_with ratio T text = Inr ms \<Longrightarrow>
     distinct (map (\<lambda>m. name (skill m)) ms) \<and>
     distinct (map match_key ms) \<and>
     (\<forall>m \<in> set ms.
        (exact_hit text (skill m) \<longrightarrow> match_type m = ''exact'') \<and>
        (\<not> exact_hit text (skill m) \<and> variant_hit text (skill m) \<longrightarrow> match_type m = ''variant'') \<and>
        (\<not> exact_hit text (skill m) \<and> \<not> variant_hit text (skill m) \<longrightarrow> match_type m = ''fuzzy'')) \<and>
     (\<forall>s \<in> set (get_all_skills T).
        text \<noteq> [] \<and> (exact_hit text s \<or> variant_hit text s) \<longrightarrow>
        (\<exists>m \<in> set ms. match_key m = lower (name s)))"
proof -
  assume a: "extract_skills_with ratio T text = Inr ms"
  note P = extract_skills_with_props[OF a]
  have "map match_key ms = map lower (map (\<lambda>m. name (skill m)) ms)"
    by (simp add: match_key_def comp_def)
  then have "distinct (map (\<lambda>m. name (skill m)) ms)"
    using P by (metis distinct_map)
  then show ?thesis using P by blast
qed

theorem extract_skills_reports_once_witness:
  "extract_skills new_taxonomy ''git'' =
     Inr [\<lparr>skill = Git, match_type = ''exact'', confidence = 1, context_text = ''git''\<rparr>] \<and>
   Git \<in> set (get_all_skills new_taxonomy) \<and>
   exact_hit ''git'' Git \<and> variant_hit ''git'' Git \<and>
   distinct (map (\<lambda>m. name (skill m))
     [\<lparr>skill = Git, match_type = ''exact'', confidence = 1, context_text = ''git''\<rparr>])"
proof -
  have g: "Git \<in> set (get_all_skills new_taxonomy)"
    unfolding all_skills_new_taxonomy by (simp add: skills_data_def)
  have h: "exact_hit ''git'' Git" "variant_hit ''git'' Git"
    by (simp_all add: match_eval)
  show ?thesis
    using extract_skills_reports_once[OF git_result] git_result g h
    by (simp add: extract_skills_def)
qed

text \<open>
  What the cascade does about errors as it is designed: the empty text gives the empty
  list, an error can only come from a ratio call of the fuzzy strategy, and when no ratio
  call raises the extraction returns a list.
\<close>

lemma extract_skills_design:
  "extract_skills_with ratio T [] = Inr [] \<and>
   ((\<forall>token candidate. \<exists>v. ratio token candidate = Inr v) \<longrightarrow>
      (\<exists>ms. extract_skills_with ratio T text = Inr ms)) \<and>
   (\<forall>e. extract_skills_with ratio T text = Inl e \<longleftrightarrow>
      text \<noteq> [] \<and>
      FuzzyMatcher_find_matches ratio text T
        (snd (VariantMatcher_find_matches text T (snd (ExactMatcher_find_matches text T {})))) =
        Inl e) \<and>
   (\<forall>e. extract_skills_with ratio T text = Inl e \<longrightarrow>
      (\<exists>token candidate. ratio token candidate = Inl e))"
  apply (intro conjI allI impI)
  subgoal by (simp add: extract_skills_with_def)
  subgoal by (rule extract_skills_with_total)
  subgoal by (rule extract_skills_with_error_iff)
  subgoal by (rule extract_skills_with_error)
  done

text \<open>
  Claim C1: \<open>extract_skills\<close> returns a list of matches for every valid string and never
  raises. The cascade as designed does so whenever the ratio calls succeed
  (\<open>extract_skills_design\<close>), but \<open>extract_skills\<close> itself raises on the text \<open>hello\<close>: the
  fuzzy strategy is reached with the token \<open>hello\<close>, and its first ratio call fails.
\<close>

theorem extract_skills_raises:
  "extract_skills new_taxonomy ''hello'' = Inl NameError"
  by (simp add: extract_skills_def hello_raises)

text \<open>
  Claim C3 holds for the cascade as designed (\<open>golang_example_design\<close>), but
  \<open>extract_skills\<close> itself raises on the example text: the fuzzy strategy is reached with
  the tokens \<open>experienced\<close>, \<open>python\<close> and \<open>golang\<close>, and its first ratio call fails.
\<close>

theorem golang_example_raises:
  "process ''Experienced in Python and Golang'' = ''experienced in python and golang'' \<and>
   extract_skills new_taxonomy (process ''Experienced in Python and Golang'') = Inl NameError"
  by (simp add: extract_skills_def golang_raises process_golang_example)

text \<open>
  Claim C10 holds for the cascade as designed (\<open>javascript_design\<close>), but \<open>extract_skills\<close>
  itself raises on the text \<open>javascript\<close>, for the same reason.
\<close>

theorem javascript_example_raises:
  "extract_skills new_taxonomy ''javascript'' = Inl NameError"
  by (simp add: extract_skills_def javascript_raises)

end
